theory Spec2Isabelle
  imports Complex_Main "HOL-Library.Char_ord" "HOL-Library.List_Lexorder"
begin

section \<open>Errors and machine integers\<close>

text \<open>
  Go errors are values.  \<open>Errorf\<close> is an error built by \<open>fmt.Errorf\<close> without a cause,
  \<open>Wrap\<close> one built with \<open>%w\<close> around a cause, \<open>AppError\<close> is \<open>*internal.Error\<close>
  (code, message, optional cause) and the two context errors are what \<open>ctx.Err()\<close> returns.
\<close>

datatype ErrorCode =
    ErrorCodeNetwork | ErrorCodeProcessing | ErrorCodeValidation | ErrorCodeConfig
  | ErrorCodeNotFound | ErrorCodeTimeout | ErrorCodeFileSystem | ErrorCodePermission

datatype error =
    Errorf string
  | Wrap string error
  | AppError ErrorCode string "error option"
  | ContextCanceled
  | ContextDeadlineExceeded

text \<open>The value of a signed 64-bit integer after wrap-around (Go's \<open>int64\<close>).\<close>

definition int64 :: "int \<Rightarrow> int" where
  "int64 i = (i + 2 ^ 63) mod 2 ^ 64 - 2 ^ 63"

section \<open>Tile coordinate model (internal/tile/types.go, internal/tile/processor.go)\<close>

record TileRequest =
  req_Z :: int
  req_X :: int
  req_Y :: int
  req_URL :: string
  req_Headers :: "(string \<times> string) list"

record TileRange =
  MinZ :: int
  MaxZ :: int
  MinX :: int
  MaxX :: int
  MinY :: int
  MaxY :: int

text \<open>
  \<open>ValidateCoordinates\<close>: the zoom test comes first, so the shift \<open>1 << uint(z)\<close> is only
  evaluated for \<open>0 \<le> z \<le> 22\<close>, where it is \<open>2 ^ z\<close>.  \<open>None\<close> is the nil error.
\<close>

definition ValidateCoordinates :: "int \<Rightarrow> int \<Rightarrow> int \<Rightarrow> error option" where
  "ValidateCoordinates z x y =
     (if z < 0 \<or> z > 22 then Some (Errorf ''invalid zoom level'')
      else let maxTile = (2::int) ^ nat z in
        if x < 0 \<or> x \<ge> maxTile then Some (Errorf ''invalid x coordinate'')
        else if y < 0 \<or> y \<ge> maxTile then Some (Errorf ''invalid y coordinate'')
        else None)"

text \<open>
  \<open>TileRange.Count\<close>: one pass of the loop per zoom level, the total accumulated in an
  \<open>int64\<close>.
\<close>

definition Count_step :: "TileRange \<Rightarrow> int \<Rightarrow> int \<Rightarrow> int" where
  "Count_step tr tot z =
     (let xRange = int64 (MaxX tr - MinX tr + 1);
          yRange = int64 (MaxY tr - MinY tr + 1)
      in int64 (tot + int64 (xRange * yRange)))"

definition Count :: "TileRange \<Rightarrow> int" where
  "Count tr = foldl (Count_step tr) 0 [MinZ tr..MaxZ tr]"

subsection \<open>Range validation of the coordinator (internal/batch/coordinator.go)\<close>

fun validateTileRange_zooms :: "TileRange \<Rightarrow> int list \<Rightarrow> error option" where
  "validateTileRange_zooms tr [] = None"
| "validateTileRange_zooms tr (z # zs) =
     (let maxTile = (2::int) ^ nat z in
        if MinX tr < 0 \<or> MaxX tr \<ge> maxTile then Some (Errorf ''X coordinates out of bounds'')
        else if MinY tr < 0 \<or> MaxY tr \<ge> maxTile then Some (Errorf ''Y coordinates out of bounds'')
        else validateTileRange_zooms tr zs)"

definition validateTileRange :: "TileRange \<Rightarrow> error option" where
  "validateTileRange tr =
     (if MinZ tr < 0 \<or> MaxZ tr > 22 then Some (Errorf ''zoom levels must be between 0 and 22'')
      else if MinZ tr > MaxZ tr then Some (Errorf ''min zoom cannot be greater than max zoom'')
      else if MinX tr > MaxX tr then Some (Errorf ''min X cannot be greater than max X'')
      else if MinY tr > MaxY tr then Some (Errorf ''min Y cannot be greater than max Y'')
      else validateTileRange_zooms tr [MinZ tr..MaxZ tr])"

section \<open>Formatting integers (\<open>%d\<close> of \<open>fmt.Sprintf\<close>)\<close>

fun nat_digits :: "nat \<Rightarrow> string" where
  "nat_digits n =
     (if n < 10 then [''0123456789'' ! n]
      else nat_digits (n div 10) @ [''0123456789'' ! (n mod 10)])"

declare nat_digits.simps [simp del]

definition fmt_d :: "int \<Rightarrow> string" where
  "fmt_d i = (if i < 0 then CHR ''-'' # nat_digits (nat (- i)) else nat_digits (nat i))"

section \<open>Batch job types (internal/batch/types.go)\<close>

datatype JobStatus =
    JobStatusPending | JobStatusRunning | JobStatusCompleted
  | JobStatusFailed | JobStatusCanceled | JobStatusPaused

record JobConfig =
  Concurrency :: int
  ChunkSize :: int
  Timeout :: int
  Resume :: bool
  OutputPath :: string
  OutputFormat :: string
  FailOnError :: bool
  RetryFailed :: bool
  MaxRetries :: int
  MultiFile :: bool
  Compression :: bool

record WorkItem =
  Request :: TileRequest
  ChunkID :: int
  ItemID :: int
  Retry :: int
  Priority :: int

definition NewWorkItem :: "TileRequest \<Rightarrow> int \<Rightarrow> int \<Rightarrow> WorkItem" where
  "NewWorkItem request chunkID itemID =
     \<lparr>Request = request, ChunkID = chunkID, ItemID = itemID, Retry = 0, Priority = 0\<rparr>"

section \<open>Work-item generation (internal/batch/processor.go)\<close>

definition buildTileURL :: "int \<Rightarrow> int \<Rightarrow> int \<Rightarrow> string" where
  "buildTileURL z x y =
     ''https://example.com/tiles/'' @ fmt_d z @ ''/'' @ fmt_d x @ ''/'' @ fmt_d y @ ''.mvt''"

text \<open>
  The four nested loops of \<open>generateWorkItems\<close>, innermost first.  The loop state is the
  slice built so far and the running \<open>itemID\<close>; the first invalid coordinate returns the
  error and drops the slice.  Go leaves \<open>Headers\<close> nil, the empty map.
\<close>

fun generate_ys :: "int \<Rightarrow> int \<Rightarrow> int list \<Rightarrow> WorkItem list \<times> int \<Rightarrow> error + WorkItem list \<times> int" where
  "generate_ys z x [] st = Inr st"
| "generate_ys z x (y # ys) (workItems, itemID) =
     (case ValidateCoordinates z x y of
        Some err \<Rightarrow> Inl (Wrap ''invalid tile coordinates'' err)
      | None \<Rightarrow>
          (let request = \<lparr>req_Z = z, req_X = x, req_Y = y, req_URL = buildTileURL z x y,
                          req_Headers = []\<rparr>;
               workItem = NewWorkItem request 0 itemID
           in generate_ys z x ys (workItems @ [workItem], itemID + 1)))"

fun generate_xs :: "TileRange \<Rightarrow> int \<Rightarrow> int list \<Rightarrow> WorkItem list \<times> int \<Rightarrow> error + WorkItem list \<times> int" where
  "generate_xs tr z [] st = Inr st"
| "generate_xs tr z (x # xs) st =
     (case generate_ys z x [MinY tr..MaxY tr] st of
        Inl err \<Rightarrow> Inl err
      | Inr st' \<Rightarrow> generate_xs tr z xs st')"

fun generate_zs :: "TileRange \<Rightarrow> int list \<Rightarrow> WorkItem list \<times> int \<Rightarrow> error + WorkItem list \<times> int" where
  "generate_zs tr [] st = Inr st"
| "generate_zs tr (z # zs) st =
     (case generate_xs tr z [MinX tr..MaxX tr] st of
        Inl err \<Rightarrow> Inl err
      | Inr st' \<Rightarrow> generate_zs tr zs st')"

fun generate_ranges :: "TileRange list \<Rightarrow> WorkItem list \<times> int \<Rightarrow> error + WorkItem list \<times> int" where
  "generate_ranges [] st = Inr st"
| "generate_ranges (tileRange # rest) st =
     (case generate_zs tileRange [MinZ tileRange..MaxZ tileRange] st of
        Inl err \<Rightarrow> Inl err
      | Inr st' \<Rightarrow> generate_ranges rest st')"

definition generateWorkItems :: "TileRange list \<Rightarrow> JobConfig \<Rightarrow> error + WorkItem list" where
  "generateWorkItems tileRanges config =
     (case generate_ranges tileRanges ([], 0) of
        Inl err \<Rightarrow> Inl err
      | Inr (workItems, itemID) \<Rightarrow> Inr workItems)"

text \<open>The tile id \<open>(z, x, y)\<close> a work item asks for.\<close>

definition tile_id :: "WorkItem \<Rightarrow> int \<times> int \<times> int" where
  "tile_id w = (req_Z (Request w), req_X (Request w), req_Y (Request w))"


section \<open>Fetching (internal/tile/types.go, fetcher.go, local_fetcher.go)\<close>

text \<open>
  Durations are counted in milliseconds.  The time-valued fields of the source
  (\<open>FetchTime\<close>, \<open>Duration\<close>, \<open>StartTime\<close>, \<open>Throughput\<close>, \<open>EstimatedEnd\<close>,
  \<open>CreatedAt\<close>, \<open>StartedAt\<close>, \<open>CompletedAt\<close>) depend on the wall clock only and are left
  out of the records; no counter, status or control decision reads them.
\<close>

definition Millisecond :: int where "Millisecond = 1"
definition Second :: int where "Second = 1000"

record TileResponse =
  resp_Request :: TileRequest
  resp_Data :: "nat list"
  resp_Headers :: "(string \<times> string list) list"
  resp_StatusCode :: int
  resp_Size :: int
  resp_Error :: "error option"

text \<open>A Go result pair of a \<open>*TileResponse\<close> and an \<open>error\<close>: either component may be nil.\<close>

type_synonym fetch_result = "TileResponse option \<times> error option"

text \<open>What a retry loop does besides returning: it sleeps and it calls \<open>Fetch\<close>.\<close>

datatype effect = Sleep int | FetchCall | ProcessCall

definition attempts_made :: "effect list \<Rightarrow> nat" where
  "attempts_made effs = count_list effs FetchCall"

definition wrap_cause :: "string \<Rightarrow> error option \<Rightarrow> error" where
  "wrap_cause msg cause = (case cause of None \<Rightarrow> Errorf msg | Some e \<Rightarrow> Wrap msg e)"

subsection \<open>HTTP fetcher\<close>

record HTTPFetcher =
  http_MaxRetries :: int
  http_APIKey :: string

text \<open>
  What the network did with one request: the request could not be built, the transport
  failed, the gzip reader could not be created or the body not be read (the status line
  was received), or a full response with its status code arrived.
\<close>

datatype http_outcome =
    BuildRequestFailed error
  | TransportFailed error
  | GzipReaderFailed int error
  | ReadBodyFailed int error
  | Responded int "nat list"

definition empty_response :: "TileRequest \<Rightarrow> TileResponse" where
  "empty_response request =
     \<lparr>resp_Request = request, resp_Data = [], resp_Headers = [], resp_StatusCode = 0,
      resp_Size = 0, resp_Error = None\<rparr>"

fun HTTP_Fetch :: "http_outcome \<Rightarrow> TileRequest \<Rightarrow> fetch_result" where
  "HTTP_Fetch (BuildRequestFailed err) request =
     (Some ((empty_response request)\<lparr>resp_Error := Some (Wrap ''failed to build HTTP request'' err)\<rparr>),
      Some err)"
| "HTTP_Fetch (TransportFailed err) request =
     (Some ((empty_response request)\<lparr>resp_Error := Some (Wrap ''HTTP request failed'' err)\<rparr>),
      Some err)"
| "HTTP_Fetch (GzipReaderFailed status err) request =
     (Some ((empty_response request)\<lparr>resp_StatusCode := status,
        resp_Error := Some (Wrap ''failed to create gzip reader'' err)\<rparr>), Some err)"
| "HTTP_Fetch (ReadBodyFailed status err) request =
     (Some ((empty_response request)\<lparr>resp_StatusCode := status,
        resp_Error := Some (Wrap ''failed to read response body'' err)\<rparr>), Some err)"
| "HTTP_Fetch (Responded status data) request =
     (let response = (empty_response request)\<lparr>resp_Data := data, resp_StatusCode := status,
                        resp_Size := int (length data)\<rparr>
      in if status \<noteq> 200
         then (Some (response\<lparr>resp_Error := Some (Errorf (''HTTP '' @ fmt_d status))\<rparr>),
               Some (Errorf (''HTTP '' @ fmt_d status)))
         else (Some response, None))"

definition HTTP_shouldRetry :: "TileResponse option \<Rightarrow> error option \<Rightarrow> bool" where
  "HTTP_shouldRetry response err =
     (case response of
        None \<Rightarrow> True
      | Some r \<Rightarrow>
          if resp_StatusCode r \<ge> 400 \<and> resp_StatusCode r < 500 then False
          else if resp_StatusCode r \<ge> 500 \<or> resp_StatusCode r = 0 then True
          else False)"

text \<open>
  \<open>HTTPFetcher.FetchWithRetry\<close>.  \<open>net attempt\<close> is what the network does with the
  request sent at loop index \<open>attempt\<close>.  The result is the returned pair and the effects
  in the order they happened.
\<close>

function HTTP_FetchWithRetry_loop ::
  "HTTPFetcher \<Rightarrow> (int \<Rightarrow> http_outcome) \<Rightarrow> TileRequest \<Rightarrow> int \<Rightarrow> TileResponse option \<Rightarrow>
   error option \<Rightarrow> effect list \<Rightarrow> fetch_result \<times> effect list" where
  "HTTP_FetchWithRetry_loop f net request attempt lastResponse lastErr effs =
     (if attempt \<le> http_MaxRetries f then
        (let effs1 = (if attempt > 0 then effs @ [Sleep (attempt * attempt * Second)] else effs);
             (response, err) = HTTP_Fetch (net attempt) request;
             effs2 = effs1 @ [FetchCall]
         in if err = None then ((response, None), effs2)
            else if \<not> HTTP_shouldRetry response err
            then ((response, Some (wrap_cause ''failed after attempts'' err)), effs2)
            else HTTP_FetchWithRetry_loop f net request (attempt + 1) response err effs2)
      else ((lastResponse, Some (wrap_cause ''failed after attempts'' lastErr)), effs))"
  by pat_completeness auto
termination
  by (relation "measure (\<lambda>(f, net, request, attempt, lastResponse, lastErr, effs).
        nat (http_MaxRetries f + 1 - attempt))") auto

declare HTTP_FetchWithRetry_loop.simps [simp del]

definition HTTP_FetchWithRetry ::
  "HTTPFetcher \<Rightarrow> (int \<Rightarrow> http_outcome) \<Rightarrow> TileRequest \<Rightarrow> fetch_result \<times> effect list" where
  "HTTP_FetchWithRetry f net request = HTTP_FetchWithRetry_loop f net request 0 None None []"

subsection \<open>Local fetcher\<close>

record LocalFetcher =
  local_BasePath :: string
  local_Extension :: string
  local_Compressed :: bool

text \<open>
  \<open>filepath.IsAbs\<close>, \<open>filepath.Clean\<close> and \<open>filepath.Join\<close> of the standard library on
  a Unix path.  \<open>Clean\<close> collapses repeated separators, drops \<open>.\<close> elements, resolves
  \<open>..\<close> against the element before it (dropping it at the root) and turns the empty
  result into \<open>.\<close>; \<open>Join\<close> skips leading empty elements, joins the rest with the
  separator and cleans the result.  \<open>strings.ToLower\<close> is modelled on ASCII letters.
\<close>

definition filepath_IsAbs :: "string \<Rightarrow> bool" where
  "filepath_IsAbs p = (case p of [] \<Rightarrow> False | c # cs \<Rightarrow> c = CHR ''/'')"

fun join_separator :: "string list \<Rightarrow> string" where
  "join_separator [] = []"
| "join_separator [p] = p"
| "join_separator (p # ps) = p @ ''/'' @ join_separator ps"

fun split_separator :: "string \<Rightarrow> string list" where
  "split_separator [] = [[]]"
| "split_separator (c # cs) =
     (if c = CHR ''/'' then [] # split_separator cs
      else (case split_separator cs of [] \<Rightarrow> [[c]] | e # es \<Rightarrow> (c # e) # es))"

fun clean_elements :: "bool \<Rightarrow> string list \<Rightarrow> string list \<Rightarrow> string list" where
  "clean_elements rooted out [] = rev out"
| "clean_elements rooted out (e # es) =
     (if e = [] \<or> e = ''.'' then clean_elements rooted out es
      else if e = ''..'' then
        (case out of
           [] \<Rightarrow> if rooted then clean_elements rooted out es
                 else clean_elements rooted [''..''] es
         | prev # rest \<Rightarrow>
             if prev = ''..'' then clean_elements rooted (''..'' # out) es
             else clean_elements rooted rest es)
      else clean_elements rooted (e # out) es)"

definition filepath_Clean :: "string \<Rightarrow> string" where
  "filepath_Clean path =
     (case path of
        [] \<Rightarrow> ''.''
      | c # cs \<Rightarrow>
          (let rooted = (c = CHR ''/'');
               body = join_separator (clean_elements rooted [] (split_separator path))
           in if rooted then CHR ''/'' # body
              else if body = [] then ''.'' else body))"

definition filepath_Join :: "string list \<Rightarrow> string" where
  "filepath_Join elems =
     (case dropWhile (\<lambda>e. e = []) elems of
        [] \<Rightarrow> []
      | e # es \<Rightarrow> filepath_Clean (join_separator (e # es)))"

definition ToLower :: "string \<Rightarrow> string" where
  "ToLower p =
     map (\<lambda>c. if CHR ''A'' \<le> c \<and> c \<le> CHR ''Z'' then char_of (of_char c + (32::nat)) else c) p"

definition isCompressedFile :: "string \<Rightarrow> bool" where
  "isCompressedFile filePath =
     (drop (length filePath - 3) (ToLower filePath) = ''.gz'')"

definition buildFilePath :: "LocalFetcher \<Rightarrow> TileRequest \<Rightarrow> error + string" where
  "buildFilePath f request =
     (if req_URL request \<noteq> [] then
        (if filepath_IsAbs (req_URL request) then Inr (req_URL request)
         else Inr (filepath_Join [local_BasePath f, req_URL request]))
      else if local_BasePath f = [] then
        Inl (Errorf ''base_path is required for coordinate-based file paths'')
      else
        (case ValidateCoordinates (req_Z request) (req_X request) (req_Y request) of
           Some err \<Rightarrow> Inl (Wrap ''invalid coordinates'' err)
         | None \<Rightarrow>
             (let extension = (if local_Compressed f then local_Extension f @ ''.gz''
                               else local_Extension f)
              in Inr (filepath_Join [local_BasePath f, fmt_d (req_Z request),
                        fmt_d (req_X request), fmt_d (req_Y request) @ extension]))))"

text \<open>
  What the file system did with the path of one \<open>Fetch\<close>: \<open>os.Stat\<close> reported that the
  file does not exist or failed otherwise, the path is not a regular file, \<open>os.Open\<close>
  failed, the gzip reader could not be created (paths ending in \<open>.gz\<close> only), reading
  failed, or the content was read.
\<close>

datatype fs_outcome =
    StatNotExist error
  | StatFailed error
  | NotRegularFile
  | OpenFailed error
  | GzipFailed error
  | ReadFailed error
  | ReadOk "nat list"

definition failed_response :: "TileRequest \<Rightarrow> error \<Rightarrow> TileResponse" where
  "failed_response request e = (empty_response request)\<lparr>resp_Error := Some e\<rparr>"

definition Local_Fetch :: "LocalFetcher \<Rightarrow> (string \<Rightarrow> fs_outcome) \<Rightarrow> TileRequest \<Rightarrow> fetch_result" where
  "Local_Fetch f fs request =
     (case buildFilePath f request of
        Inl err \<Rightarrow>
          (Some (failed_response request
                   (AppError ErrorCodeValidation ''failed to build file path'' (Some err))),
           Some err)
      | Inr filePath \<Rightarrow>
          (case fs filePath of
             StatNotExist err \<Rightarrow>
               (let notFoundErr = AppError ErrorCodeNotFound ''tile file not found'' (Some err)
                in (Some (failed_response request notFoundErr), Some notFoundErr))
           | StatFailed err \<Rightarrow>
               (let accessErr = AppError ErrorCodeFileSystem ''cannot access tile file'' (Some err)
                in (Some (failed_response request accessErr), Some accessErr))
           | NotRegularFile \<Rightarrow>
               (let typeErr = AppError ErrorCodeValidation ''path is not a regular file'' None
                in (Some (failed_response request typeErr), Some typeErr))
           | OpenFailed err \<Rightarrow>
               (let openErr = AppError ErrorCodeFileSystem ''failed to open tile file'' (Some err)
                in (Some (failed_response request openErr), Some openErr))
           | GzipFailed err \<Rightarrow>
               (let compressErr = AppError ErrorCodeProcessing ''failed to create gzip reader'' (Some err)
                in (Some (failed_response request compressErr), Some compressErr))
           | ReadFailed err \<Rightarrow>
               (let readErr = AppError ErrorCodeFileSystem ''failed to read tile file'' (Some err)
                in (Some (failed_response request readErr), Some readErr))
           | ReadOk data \<Rightarrow>
               (Some ((empty_response request)\<lparr>resp_Data := data, resp_StatusCode := 200,
                  resp_Size := int (length data),
                  resp_Headers := [(''Content-Type'', [''application/x-protobuf'']),
                                   (''Content-Length'', [fmt_d (int (length data))])] @
                                  (if isCompressedFile filePath
                                   then [(''Content-Encoding'', [''gzip''])] else [])\<rparr>),
                None)))"

text \<open>
  \<open>LocalFetcher.shouldRetry\<close>: the type assertion of \<open>err\<close> to \<open>*internal.Error\<close> succeeds on an
  \<open>AppError\<close> only.
\<close>

definition Local_shouldRetry :: "TileResponse option \<Rightarrow> error option \<Rightarrow> bool" where
  "Local_shouldRetry response err =
     (case response of
        None \<Rightarrow> True
      | Some r \<Rightarrow>
          (case err of
             Some (AppError code msg cause) \<Rightarrow>
               (if code = ErrorCodeNotFound \<or> code = ErrorCodePermission \<or> code = ErrorCodeValidation
                then False else True)
           | _ \<Rightarrow> True))"

function Local_FetchWithRetry_loop ::
  "LocalFetcher \<Rightarrow> (int \<Rightarrow> string \<Rightarrow> fs_outcome) \<Rightarrow> TileRequest \<Rightarrow> int \<Rightarrow> int \<Rightarrow>
   TileResponse option \<Rightarrow> error option \<Rightarrow> effect list \<Rightarrow> fetch_result \<times> effect list" where
  "Local_FetchWithRetry_loop f fs request maxRetries attempt lastResponse lastErr effs =
     (if attempt \<le> maxRetries then
        (let effs1 = (if attempt > 0 then effs @ [Sleep (attempt * 100 * Millisecond)] else effs);
             (response, err) = Local_Fetch f (fs attempt) request;
             effs2 = effs1 @ [FetchCall]
         in if err = None then ((response, None), effs2)
            else if \<not> Local_shouldRetry response err
            then ((response, Some (wrap_cause ''failed after attempts'' err)), effs2)
            else Local_FetchWithRetry_loop f fs request maxRetries (attempt + 1) response err effs2)
      else ((lastResponse, Some (wrap_cause ''failed after attempts'' lastErr)), effs))"
  by pat_completeness auto
termination
  by (relation "measure (\<lambda>(f, fs, request, maxRetries, attempt, lastResponse, lastErr, effs).
        nat (maxRetries + 1 - attempt))") auto

declare Local_FetchWithRetry_loop.simps [simp del]

definition Local_FetchWithRetry ::
  "LocalFetcher \<Rightarrow> (int \<Rightarrow> string \<Rightarrow> fs_outcome) \<Rightarrow> TileRequest \<Rightarrow> fetch_result \<times> effect list" where
  "Local_FetchWithRetry f fs request =
     (let maxRetries = 3 in Local_FetchWithRetry_loop f fs request maxRetries 0 None None [])"


section \<open>Batch executor (internal/batch/types.go, internal/batch/processor.go)\<close>

record TileMetadata =
  meta_Layers :: "string list"
  meta_FeatureCount :: int
  meta_Size :: int
  meta_Version :: int
  meta_Extent :: int
  meta_Compressed :: bool

record ProcessedTile =
  tile_Coordinate :: "int \<times> int \<times> int"
  tile_Data :: string
  tile_Metadata :: "TileMetadata option"
  tile_Error :: "error option"

record JobProgress =
  TotalTiles :: int
  ProcessedTiles :: int
  FailedTiles :: int
  SuccessTiles :: int
  CurrentChunk :: int
  TotalChunks :: int
  BytesWritten :: int

record Job =
  job_ID :: string
  job_TileRanges :: "TileRange list"
  job_Config :: JobConfig
  job_Status :: JobStatus
  job_Progress :: JobProgress
  job_Error :: "error option"

record WorkResult =
  res_Item :: WorkItem
  res_Tile :: "ProcessedTile option"
  res_Error :: "error option"
  res_Attempts :: int

record ChunkResult =
  cr_ChunkID :: int
  cr_Results :: "WorkResult list"
  cr_SuccessCount :: int
  cr_FailureCount :: int

definition NewJobProgress :: JobProgress where
  "NewJobProgress =
     \<lparr>TotalTiles = 0, ProcessedTiles = 0, FailedTiles = 0, SuccessTiles = 0, CurrentChunk = 0,
      TotalChunks = 0, BytesWritten = 0\<rparr>"

definition NewJob :: "string \<Rightarrow> TileRange list \<Rightarrow> JobConfig \<Rightarrow> Job" where
  "NewJob ident ranges config =
     \<lparr>job_ID = ident, job_TileRanges = ranges, job_Config = config, job_Status = JobStatusPending,
      job_Progress = NewJobProgress, job_Error = None\<rparr>"

definition NewJobConfig :: JobConfig where
  "NewJobConfig =
     \<lparr>Concurrency = 10, ChunkSize = 100, Timeout = 300000, Resume = False, OutputPath = [],
      OutputFormat = ''geojson'', FailOnError = False, RetryFailed = True, MaxRetries = 3,
      MultiFile = False, Compression = False\<rparr>"

text \<open>\<open>CalculateProgress\<close>; the \<open>float64\<close> arithmetic is taken over the reals.\<close>

definition CalculateProgress :: "JobProgress \<Rightarrow> real" where
  "CalculateProgress p =
     (if TotalTiles p = 0 then 0
      else real_of_int (ProcessedTiles p) / real_of_int (TotalTiles p) * 100)"

text \<open>
  The collaborators of a \<open>BatchProcessor\<close> and the scheduler, as the executor sees them:
  \<^item> \<open>ctxErr k\<close>: \<open>ctx.Err()\<close> when \<open>Process\<close> polls \<open>ctx.Done()\<close> at the top of chunk \<open>k\<close>
    (\<open>None\<close>: not done);
  \<^item> \<open>fate item\<close>: what the worker pool did with a queued item: a worker received it and
    processed it, a worker received it after the context was done, or every worker had
    returned before it was received;
  \<^item> \<open>fetcherFetch item attempt\<close> and \<open>processorProcess item attempt\<close>: the results of
    \<open>bp.fetcher.Fetch\<close> and \<open>bp.processor.Process\<close> at that attempt for that item;
  \<^item> \<open>writerWriteBatch\<close>: the result of \<open>bp.writer.WriteBatch\<close>.
\<close>

datatype fate = Processed | SawDone error | NotReceived

record world =
  ctxErr :: "nat \<Rightarrow> error option"
  fate :: "WorkItem \<Rightarrow> fate"
  fetcherFetch :: "WorkItem \<Rightarrow> int \<Rightarrow> fetch_result"
  processorProcess :: "WorkItem \<Rightarrow> int \<Rightarrow> TileResponse option \<Rightarrow> ProcessedTile option \<times> error option"
  writerWriteBatch :: "ProcessedTile list \<Rightarrow> error option"

text \<open>\<open>processWorkItem\<close>: the loop \<open>for attempt := 0; attempt <= 3; attempt++\<close>.\<close>

function processWorkItem_loop ::
  "world \<Rightarrow> WorkItem \<Rightarrow> int \<Rightarrow> error option \<Rightarrow> effect list \<Rightarrow> WorkResult \<times> effect list" where
  "processWorkItem_loop w workItem attempt lastErr effs =
     (if attempt \<le> 3 then
        (let effs1 = (if attempt > 0 then effs @ [Sleep (attempt * Second)] else effs);
             (response, err) = fetcherFetch w workItem attempt
         in case err of
              Some e \<Rightarrow>
                processWorkItem_loop w workItem (attempt + 1) (Some (Wrap ''fetch failed'' e))
                  (effs1 @ [FetchCall])
            | None \<Rightarrow>
                (let (processedTile, err) = processorProcess w workItem attempt response
                 in case err of
                      Some e \<Rightarrow>
                        processWorkItem_loop w workItem (attempt + 1)
                          (Some (Wrap ''process failed'' e)) (effs1 @ [FetchCall, ProcessCall])
                    | None \<Rightarrow>
                        (\<lparr>res_Item = workItem, res_Tile = processedTile, res_Error = None,
                          res_Attempts = attempt + 1\<rparr>, effs1 @ [FetchCall, ProcessCall])))
      else (\<lparr>res_Item = workItem, res_Tile = None, res_Error = lastErr, res_Attempts = 4\<rparr>, effs))"
  by pat_completeness auto
termination
  by (relation "measure (\<lambda>(w, workItem, attempt, lastErr, effs). nat (4 - attempt))") auto

declare processWorkItem_loop.simps [simp del]

definition processWorkItem :: "world \<Rightarrow> WorkItem \<Rightarrow> WorkResult \<times> effect list" where
  "processWorkItem w workItem = processWorkItem_loop w workItem 0 None []"

text \<open>
  \<open>worker\<close>, for one item taken from the work channel: the results it sends.  After
  \<open>SawDone\<close> the worker returns, so an item nobody receives yields no result.
\<close>

definition worker_item :: "world \<Rightarrow> WorkItem \<Rightarrow> WorkResult list" where
  "worker_item w workItem =
     (case fate w workItem of
        Processed \<Rightarrow> [fst (processWorkItem w workItem)]
      | SawDone e \<Rightarrow> [\<lparr>res_Item = workItem, res_Tile = None, res_Error = Some e, res_Attempts = 1\<rparr>]
      | NotReceived \<Rightarrow> [])"

text \<open>The number of worker goroutines \<open>ProcessChunk\<close> starts.\<close>

definition ProcessChunk_concurrency :: "WorkItem list \<Rightarrow> int" where
  "ProcessChunk_concurrency workItems = min (int (length workItems)) 10"

text \<open>The collection loop \<open>for result := range resultChan\<close>.\<close>

fun collect_results ::
  "WorkResult list \<Rightarrow> WorkResult list \<times> ProcessedTile list \<times> int \<times> int \<Rightarrow>
   WorkResult list \<times> ProcessedTile list \<times> int \<times> int" where
  "collect_results [] st = st"
| "collect_results (result # rest) (results, processedTiles, successCount, failureCount) =
     (if res_Error result \<noteq> None
      then collect_results rest (results @ [result], processedTiles, successCount, failureCount + 1)
      else collect_results rest
             (results @ [result],
              (case res_Tile result of Some t \<Rightarrow> processedTiles @ [t] | None \<Rightarrow> processedTiles),
              successCount + 1, failureCount))"

datatype panic = IndexOutOfRange | IntegerDivideByZero | SliceBoundsOutOfRange | MakeSliceCapOutOfRange

record chunk_run =
  run_workers :: int
  run_result :: ChunkResult
  run_err :: "error option"

text \<open>
  \<open>ProcessChunk\<close>.  Results are collected in the order of the items; the order in which
  they really arrive is up to the scheduler.  \<open>workItems[0]\<close> panics on an empty chunk.
\<close>

definition ProcessChunk :: "world \<Rightarrow> WorkItem list \<Rightarrow> panic + chunk_run" where
  "ProcessChunk w workItems =
     (let concurrency = ProcessChunk_concurrency workItems;
          (results, processedTiles, successCount, failureCount) =
             collect_results (concat (map (worker_item w) workItems)) ([], [], 0, 0)
      in case workItems of
           [] \<Rightarrow> Inl IndexOutOfRange
         | first # _ \<Rightarrow>
             (let chunkResult = \<lparr>cr_ChunkID = ChunkID first, cr_Results = results,
                                 cr_SuccessCount = successCount, cr_FailureCount = failureCount\<rparr>
              in if processedTiles \<noteq> [] then
                   (case writerWriteBatch w processedTiles of
                      Some err \<Rightarrow>
                        Inr \<lparr>run_workers = concurrency, run_result = chunkResult,
                             run_err = Some (Wrap ''failed to write batch'' err)\<rparr>
                    | None \<Rightarrow>
                        Inr \<lparr>run_workers = concurrency, run_result = chunkResult, run_err = None\<rparr>)
                 else Inr \<lparr>run_workers = concurrency, run_result = chunkResult, run_err = None\<rparr>))"

definition updateJobProgress :: "Job \<Rightarrow> ChunkResult \<Rightarrow> Job" where
  "updateJobProgress job chunkResult =
     job\<lparr>job_Progress := (job_Progress job)
       \<lparr>ProcessedTiles := ProcessedTiles (job_Progress job) + int (length (cr_Results chunkResult)),
        SuccessTiles := SuccessTiles (job_Progress job) + cr_SuccessCount chunkResult,
        FailedTiles := FailedTiles (job_Progress job) + cr_FailureCount chunkResult\<rparr>\<rparr>"

text \<open>What the progress reporter is told, in order.\<close>

datatype report =
    ReportProgress Job
  | ReportChunkComplete Job ChunkResult
  | ReportJobComplete Job
  | ReportJobFailed Job error

definition completeJobSuccessfully :: "Job \<Rightarrow> Job" where
  "completeJobSuccessfully job = job\<lparr>job_Status := JobStatusCompleted\<rparr>"

definition completeJobWithError :: "Job \<Rightarrow> error \<Rightarrow> report list \<Rightarrow> Job \<times> report list" where
  "completeJobWithError job err reports =
     (let job' = job\<lparr>job_Status := JobStatusFailed, job_Error := Some err\<rparr>
      in (job', reports @ [ReportJobFailed job' err]))"

text \<open>What a run of \<open>Process\<close> leaves: the job, the reports, the chunk runs and the error returned.\<close>

record process_run =
  final_job :: Job
  reports :: "report list"
  chunk_runs :: "chunk_run list"
  returned :: "error option"

text \<open>Go's integer division truncates towards zero.\<close>

definition go_div :: "int \<Rightarrow> int \<Rightarrow> int" where
  "go_div a b = sgn a * sgn b * (\<bar>a\<bar> div \<bar>b\<bar>)"

text \<open>
  The chunk loop of \<open>Process\<close>: \<open>for chunkStart := 0; chunkStart < len(workItems);
  chunkStart += job.Config.ChunkSize\<close>.  \<open>runs\<close> holds one entry per finished chunk, as
  \<open>chunkResults\<close> does.  \<open>chunkStart + job.Config.ChunkSize\<close> is a sum of two \<open>int\<close>s
  and wraps around at 64 bits, in the loop header as in the computation of \<open>chunkEnd\<close>.
\<close>

function Process_chunks ::
  "world \<Rightarrow> WorkItem list \<Rightarrow> Job \<Rightarrow> chunk_run list \<Rightarrow> int \<Rightarrow> report list \<Rightarrow> panic + process_run" where
  "Process_chunks w workItems job runs chunkStart reps =
     (if chunkStart < int (length workItems) then
        (case ctxErr w (length runs) of
           Some ctx_err \<Rightarrow>
             (let (job', reps') = completeJobWithError job ctx_err reps
              in Inr \<lparr>final_job = job', reports = reps', chunk_runs = runs, returned = Some ctx_err\<rparr>)
         | None \<Rightarrow>
             (let chunkEnd0 = int64 (chunkStart + ChunkSize (job_Config job));
                  chunkEnd = (if chunkEnd0 > int (length workItems) then int (length workItems)
                              else chunkEnd0)
              in if chunkStart < 0 \<or> chunkEnd < chunkStart then Inl SliceBoundsOutOfRange
                 else
                   (let chunk = take (nat (chunkEnd - chunkStart)) (drop (nat chunkStart) workItems);
                        chunkID = int (length runs);
                        job1 = job\<lparr>job_Progress := (job_Progress job)\<lparr>CurrentChunk := chunkID + 1\<rparr>\<rparr>
                    in case ProcessChunk w chunk of
                         Inl p \<Rightarrow> Inl p
                       | Inr run \<Rightarrow>
                           if run_err run \<noteq> None \<and> FailOnError (job_Config job1) then
                             (let (job', reps') =
                                    completeJobWithError job1
                                      (wrap_cause ''chunk failed'' (run_err run)) reps
                              in Inr \<lparr>final_job = job', reports = reps', chunk_runs = runs,
                                      returned = run_err run\<rparr>)
                           else
                             (let job2 = updateJobProgress job1 (run_result run);
                                  reps' = reps @ [ReportChunkComplete job2 (run_result run)]
                              in Process_chunks w workItems job2 (runs @ [run])
                                   (int64 (chunkStart + ChunkSize (job_Config job))) reps'))))
      else
        (let job' = completeJobSuccessfully job
         in Inr \<lparr>final_job = job', reports = reps @ [ReportJobComplete job'], chunk_runs = runs,
                 returned = None\<rparr>))"
  by pat_completeness auto
termination
proof (relation "measure (\<lambda>(w, workItems, job, runs, chunkStart, reps).
        nat (int (length workItems) - chunkStart))", goal_cases)
  case 1
  show ?case by simp
next
  case (2 w workItems job runs chunkStart reps chunkEnd0 chunkEnd chunk chunkID job1 run)
  have "chunk \<noteq> []"
    using 2 by (auto simp: ProcessChunk_def Let_def split: prod.splits)
  then have "chunkStart < chunkEnd"
    using 2 by auto
  then have "chunkStart < int64 (chunkStart + ChunkSize (job_Config job))"
    using 2 by (auto split: if_splits)
  then show ?case
    using 2 by simp
qed

declare Process_chunks.simps [simp del]

text \<open>
  \<open>Process\<close>.  \<open>(len(workItems) + ChunkSize - 1) / ChunkSize\<close> is computed on \<open>int\<close>:
  the sum and the difference wrap around at 64 bits, the division panics on a zero
  divisor, and \<open>make\<close> panics on a negative capacity.
\<close>

definition Process :: "world \<Rightarrow> Job \<Rightarrow> panic + process_run" where
  "Process w job =
     (let job1 = job\<lparr>job_Status := JobStatusRunning\<rparr>;
          reps1 = [ReportProgress job1]
      in case generateWorkItems (job_TileRanges job1) (job_Config job1) of
           Inl err \<Rightarrow>
             (let (job', reps') =
                    completeJobWithError job1 (Wrap ''failed to generate work items'' err) reps1
              in Inr \<lparr>final_job = job', reports = reps', chunk_runs = [], returned = Some err\<rparr>)
         | Inr workItems \<Rightarrow>
             if ChunkSize (job_Config job1) = 0 then Inl IntegerDivideByZero
             else
               (let totalChunks =
                      int64 (go_div
                        (int64 (int64 (int (length workItems) + ChunkSize (job_Config job1)) - 1))
                        (ChunkSize (job_Config job1)));
                    job2 = job1\<lparr>job_Progress := (job_Progress job1)
                             \<lparr>TotalTiles := int (length workItems), TotalChunks := totalChunks\<rparr>\<rparr>
                in if totalChunks < 0 then Inl MakeSliceCapOutOfRange
                   else Process_chunks w workItems job2 [] 0 reps1))"

subsection \<open>Coordinator (internal/batch/coordinator.go)\<close>

text \<open>
  The coordinator as one job sees it; its table of jobs and the optional store are left
  out.  \<open>run_job\<close> is the goroutine that \<open>SubmitJob\<close> and \<open>ResumeJob\<close> start: it calls
  \<open>Process\<close> and, on an error, marks the job failed once more.
\<close>

definition CanResume :: "Job \<Rightarrow> bool" where
  "CanResume j =
     (job_Status j = JobStatusPaused \<or> (job_Status j = JobStatusFailed \<and> Resume (job_Config j)))"

fun validateJob_ranges :: "TileRange list \<Rightarrow> error option" where
  "validateJob_ranges [] = None"
| "validateJob_ranges (tileRange # rest) =
     (case validateTileRange tileRange of
        Some err \<Rightarrow> Some (Wrap ''tile range is invalid'' err)
      | None \<Rightarrow> validateJob_ranges rest)"

definition validateJob :: "Job \<Rightarrow> error option" where
  "validateJob job =
     (if job_TileRanges job = [] then Some (Errorf ''at least one tile range is required'')
      else if Concurrency (job_Config job) \<le> 0 then Some (Errorf ''concurrency must be positive'')
      else if ChunkSize (job_Config job) \<le> 0 then Some (Errorf ''chunk size must be positive'')
      else if Timeout (job_Config job) \<le> 0 then Some (Errorf ''timeout must be positive'')
      else validateJob_ranges (job_TileRanges job))"

definition run_job :: "world \<Rightarrow> Job \<Rightarrow> panic + process_run" where
  "run_job w job =
     (case Process w job of
        Inl p \<Rightarrow> Inl p
      | Inr run \<Rightarrow>
          (case returned run of
             Some err \<Rightarrow>
               Inr (run\<lparr>final_job := (final_job run)\<lparr>job_Status := JobStatusFailed,
                                     job_Error := Some err\<rparr>\<rparr>)
           | None \<Rightarrow> Inr run))"

definition SubmitJob :: "world \<Rightarrow> Job \<Rightarrow> error + (panic + process_run)" where
  "SubmitJob w job =
     (if job_ID job = [] then Inl (AppError ErrorCodeValidation ''job ID is required'' None)
      else
        (case validateJob job of
           Some err \<Rightarrow> Inl (AppError ErrorCodeValidation ''job validation failed'' (Some err))
         | None \<Rightarrow>
             Inr (run_job w (job\<lparr>job_Progress := NewJobProgress, job_Status := JobStatusPending\<rparr>))))"

definition ResumeJob :: "world \<Rightarrow> Job \<Rightarrow> error + (panic + process_run)" where
  "ResumeJob w job =
     (if \<not> CanResume job then Inl (AppError ErrorCodeValidation ''job cannot be resumed'' None)
      else Inr (run_job w (job\<lparr>job_Status := JobStatusPending\<rparr>)))"

text \<open>The job as the reporter saw it right after each chunk-level progress update.\<close>

fun progress_updates :: "report list \<Rightarrow> JobProgress list" where
  "progress_updates [] = []"
| "progress_updates (ReportChunkComplete job chunkResult # rest) =
     job_Progress job # progress_updates rest"
| "progress_updates (_ # rest) = progress_updates rest"


section \<open>Geometry traversal (pkg/mvt/geometry.go, pkg/mvt/decoder.go)\<close>

text \<open>
  The geometry types of the \<open>orb\<close> library that implement \<open>orb.Geometry\<close>.  A point is
  \<open>[2]float64\<close>; coordinates are taken over the reals.
\<close>

type_synonym point = "real \<times> real"

datatype Geometry =
    Point point
  | MultiPoint "point list"
  | LineString "point list"
  | MultiLineString "point list list"
  | Ring "point list"
  | Polygon "point list list"
  | MultiPolygon "point list list list"
  | Collection "Geometry list"
  | Bound point point

text \<open>
  The type assertions \<open>.(orb.LineString)\<close>, \<open>.(orb.Ring)\<close> and \<open>.(orb.Polygon)\<close>; on any
  other dynamic type Go panics, and the functions have no equation.
\<close>

fun asLineString :: "Geometry \<Rightarrow> point list" where
  "asLineString (LineString ps) = ps"

fun asRing :: "Geometry \<Rightarrow> point list" where
  "asRing (Ring ps) = ps"

fun asPolygon :: "Geometry \<Rightarrow> point list list" where
  "asPolygon (Polygon rs) = rs"

text \<open>How deep the traversal still recurses below a geometry.\<close>

fun nesting :: "Geometry \<Rightarrow> nat" where
  "nesting (MultiLineString g) = 1"
| "nesting (Polygon g) = 1"
| "nesting (MultiPolygon g) = 2"
| "nesting g = 0"

function applyGeometryTransform :: "Geometry \<Rightarrow> (point \<Rightarrow> point) \<Rightarrow> Geometry" where
  "applyGeometryTransform (Point g) transform = Point (transform g)"
| "applyGeometryTransform (MultiPoint g) transform = MultiPoint (map transform g)"
| "applyGeometryTransform (LineString g) transform = LineString (map transform g)"
| "applyGeometryTransform (MultiLineString g) transform =
     MultiLineString
       (map (\<lambda>lineString. asLineString (applyGeometryTransform (LineString lineString) transform)) g)"
| "applyGeometryTransform (Ring g) transform = Ring (map transform g)"
| "applyGeometryTransform (Polygon g) transform =
     Polygon (map (\<lambda>ring. asRing (applyGeometryTransform (Ring ring) transform)) g)"
| "applyGeometryTransform (MultiPolygon g) transform =
     MultiPolygon
       (map (\<lambda>polygon. asPolygon (applyGeometryTransform (Polygon polygon) transform)) g)"
| "applyGeometryTransform (Collection g) transform = Collection g"
| "applyGeometryTransform (Bound lo hi) transform = Bound lo hi"
  by pat_completeness auto
termination
  by (relation "measure (\<lambda>(g, transform). nesting g)") auto

text \<open>All vertices of a geometry, in traversal order, and its shape with the vertices erased.\<close>

fun vertices :: "Geometry \<Rightarrow> point list" where
  "vertices (Point p) = [p]"
| "vertices (MultiPoint ps) = ps"
| "vertices (LineString ps) = ps"
| "vertices (MultiLineString ls) = concat ls"
| "vertices (Ring ps) = ps"
| "vertices (Polygon rs) = concat rs"
| "vertices (MultiPolygon ps) = concat (map concat ps)"
| "vertices (Collection gs) = concat (map vertices gs)"
| "vertices (Bound lo hi) = [lo, hi]"

datatype shape =
    PointShape
  | MultiPointShape nat
  | LineStringShape nat
  | MultiLineStringShape "nat list"
  | RingShape nat
  | PolygonShape "nat list"
  | MultiPolygonShape "nat list list"
  | CollectionShape "shape list"
  | BoundShape

fun shape_of :: "Geometry \<Rightarrow> shape" where
  "shape_of (Point p) = PointShape"
| "shape_of (MultiPoint ps) = MultiPointShape (length ps)"
| "shape_of (LineString ps) = LineStringShape (length ps)"
| "shape_of (MultiLineString ls) = MultiLineStringShape (map length ls)"
| "shape_of (Ring ps) = RingShape (length ps)"
| "shape_of (Polygon rs) = PolygonShape (map length rs)"
| "shape_of (MultiPolygon ps) = MultiPolygonShape (map (map length) ps)"
| "shape_of (Collection gs) = CollectionShape (map shape_of gs)"
| "shape_of (Bound lo hi) = BoundShape"

text \<open>The geometry variants an MVT feature decodes to, and the ring they are built from.\<close>

fun supported :: "Geometry \<Rightarrow> bool" where
  "supported (Collection gs) = False"
| "supported (Bound lo hi) = False"
| "supported g = True"

section \<open>Decoder (pkg/mvt/decoder.go)\<close>

record Decoder =
  extent :: int

definition NewDecoder :: Decoder where
  "NewDecoder = \<lparr>extent = 4096\<rparr>"

text \<open>
  \<open>1 << uint(z)\<close> on a 64-bit \<open>int\<close>: a negative \<open>z\<close> converts to a shift count of at
  least \<open>2 ^ 63\<close>, and a count of 64 or more shifts every bit out.
\<close>

definition shift_one :: "int \<Rightarrow> int" where
  "shift_one z = (if 0 \<le> z \<and> z < 64 then int64 (2 ^ nat z) else 0)"

definition webMercatorMax :: real where
  "webMercatorMax = 20037508.342789244"

text \<open>The closure \<open>transform\<close> built by \<open>Decoder.transformGeometry\<close>.\<close>

definition tile_transform :: "Decoder \<Rightarrow> int \<Rightarrow> int \<Rightarrow> int \<Rightarrow> point \<Rightarrow> point" where
  "tile_transform d z x y pt =
     (let n = real_of_int (shift_one z);
          tileSize = real_of_int (extent d);
          tileX = fst pt / tileSize;
          tileY = snd pt / tileSize;
          globalX = (real_of_int x + tileX) / n;
          globalY = (real_of_int y + tileY) / n;
          mercatorX = (globalX * 2.0 - 1.0) * webMercatorMax;
          mercatorY = (1.0 - globalY * 2.0) * webMercatorMax
      in (mercatorX, mercatorY))"

text \<open>
  \<open>Decoder.transformGeometry\<close> hands the closure to the traversal (\<open>transformGeometry\<close> of
  decoder.go, the same text as \<open>applyGeometryTransform\<close> of geometry.go).
\<close>

definition transformGeometry :: "Decoder \<Rightarrow> Geometry \<Rightarrow> int \<Rightarrow> int \<Rightarrow> int \<Rightarrow> Geometry" where
  "transformGeometry d geometry z x y = applyGeometryTransform geometry (tile_transform d z x y)"

text \<open>
  The tile to Web Mercator map as the specification words it:
  \<open>gx = (x + px/E)/2^z\<close>, \<open>gy = (y + py/E)/2^z\<close>, \<open>mx = (2 gx - 1) M\<close>, \<open>my = (1 - 2 gy) M\<close>
  with \<open>M = 20037508.342789244\<close>.
\<close>

definition spec_tile_to_mercator :: "int \<Rightarrow> int \<Rightarrow> int \<Rightarrow> int \<Rightarrow> point \<Rightarrow> point" where
  "spec_tile_to_mercator z x y E pt =
     (let M = 20037508.342789244;
          gx = (real_of_int x + fst pt / real_of_int E) / 2 ^ nat z;
          gy = (real_of_int y + snd pt / real_of_int E) / 2 ^ nat z
      in ((2 * gx - 1) * M, (1 - 2 * gy) * M))"

subsection \<open>Decoded tiles\<close>

record DecodedFeature =
  feat_ID :: "nat option"
  feat_Tags :: "(string \<times> string) list"
  feat_Type :: string
  feat_Geometry :: Geometry

record DecodedLayer =
  layer_Name :: string
  layer_Features :: "DecodedFeature list"
  layer_Extent :: int
  layer_Version :: int

record DecodedTile =
  Layers :: "string \<rightharpoonup> DecodedLayer"
  tile_Extent :: int
  tile_Version :: int
  tile_TileID :: "int \<times> int \<times> int"

text \<open>
  A Go \<open>range\<close> over a map visits every key once, in an order the runtime chooses anew
  each time.  \<open>order\<close> is that order: any list of the keys without repetition.
\<close>

definition range_order :: "('k \<rightharpoonup> 'v) \<Rightarrow> 'k list \<Rightarrow> bool" where
  "range_order m order = (distinct order \<and> set order = dom m)"

definition GetLayerNames :: "string list \<Rightarrow> DecodedTile \<Rightarrow> string list" where
  "GetLayerNames order dt = foldl (\<lambda>names name. names @ [name]) [] order"

text \<open>The metadata the converter builds: \<open>Layers: decodedTile.GetLayerNames()\<close>.\<close>

record ConversionMetadata =
  conv_Layers :: "string list"
  conv_FeatureCount :: int
  conv_Version :: int
  conv_Extent :: int
  conv_TileID :: string

definition Convert_metadata :: "string list \<Rightarrow> DecodedTile \<Rightarrow> int \<Rightarrow> ConversionMetadata" where
  "Convert_metadata order decodedTile featureCount =
     \<lparr>conv_Layers = GetLayerNames order decodedTile, conv_FeatureCount = featureCount,
      conv_Version = tile_Version decodedTile, conv_Extent = tile_Extent decodedTile,
      conv_TileID = (case tile_TileID decodedTile of (z, x, y) \<Rightarrow>
                       fmt_d z @ ''/'' @ fmt_d x @ ''/'' @ fmt_d y)\<rparr>"


section \<open>Observations used in the statements\<close>

text \<open>The error attempt number \<open>attempt\<close> of \<open>processWorkItem\<close> leaves in \<open>lastErr\<close>; \<open>None\<close> when
  that attempt succeeds.\<close>

definition attempt_error :: "world \<Rightarrow> WorkItem \<Rightarrow> int \<Rightarrow> error option" where
  "attempt_error w workItem attempt =
     (case snd (fetcherFetch w workItem attempt) of
        Some e \<Rightarrow> Some (Wrap ''fetch failed'' e)
      | None \<Rightarrow>
          (case snd (processorProcess w workItem attempt (fst (fetcherFetch w workItem attempt))) of
             Some e \<Rightarrow> Some (Wrap ''process failed'' e)
           | None \<Rightarrow> None))"

text \<open>The durations slept, in order.\<close>

fun sleeps :: "effect list \<Rightarrow> int list" where
  "sleeps [] = []"
| "sleeps (Sleep d # effs) = d # sleeps effs"
| "sleeps (_ # effs) = sleeps effs"

text \<open>The status of the job and the error returned when \<open>Process\<close> comes back.\<close>

definition final_status :: "panic + process_run \<Rightarrow> JobStatus option" where
  "final_status r = (case r of Inl p \<Rightarrow> None | Inr run \<Rightarrow> Some (job_Status (final_job run)))"

definition returned_error :: "panic + process_run \<Rightarrow> error option" where
  "returned_error r = (case r of Inl p \<Rightarrow> None | Inr run \<Rightarrow> returned run)"

text \<open>The counters of a job of \<open>n\<close> tiles add up and stay within the total.\<close>

definition counters_ok :: "int \<Rightarrow> JobProgress \<Rightarrow> bool" where
  "counters_ok n p \<longleftrightarrow>
     TotalTiles p = n \<and> ProcessedTiles p = SuccessTiles p + FailedTiles p \<and>
     0 \<le> ProcessedTiles p \<and> ProcessedTiles p \<le> n"

text \<open>The number of workers started for each chunk of a run of \<open>Process\<close>.\<close>

definition workers_started :: "panic + process_run \<Rightarrow> int list option" where
  "workers_started r = (case r of Inl p \<Rightarrow> None | Inr run \<Rightarrow> Some (map run_workers (chunk_runs run)))"

text \<open>
  The run a call of the coordinator led to, if it was accepted and did not panic; the
  counters (processed, success, failed, total) and the percentage after each chunk-level
  progress update of a run.
\<close>

definition the_run :: "error + (panic + process_run) \<Rightarrow> process_run option" where
  "the_run r = (case r of Inl e \<Rightarrow> None | Inr (Inl p) \<Rightarrow> None | Inr (Inr run) \<Rightarrow> Some run)"

definition progress_counts :: "process_run \<Rightarrow> (int \<times> int \<times> int \<times> int) list" where
  "progress_counts run =
     map (\<lambda>p. (ProcessedTiles p, SuccessTiles p, FailedTiles p, TotalTiles p))
       (progress_updates (reports run))"

definition percentages :: "process_run \<Rightarrow> real list" where
  "percentages run = map CalculateProgress (progress_updates (reports run))"

section \<open>Concrete inputs\<close>

text \<open>The locator the executor gives every request, written out.\<close>

definition example_com_url :: "TileRequest \<Rightarrow> string" where
  "example_com_url r =
     ''https://example.com/tiles/'' @ fmt_d (req_Z r) @ ''/'' @ fmt_d (req_X r) @ ''/'' @
     fmt_d (req_Y r) @ ''.mvt''"

text \<open>All four tiles of zoom level 1, and the single tile 1/0/1 with its work item.\<close>

definition zoom1_range :: TileRange where
  "zoom1_range = \<lparr>MinZ = 1, MaxZ = 1, MinX = 0, MaxX = 1, MinY = 0, MaxY = 1\<rparr>"

definition tile_1_0_1 :: TileRange where
  "tile_1_0_1 = \<lparr>MinZ = 1, MaxZ = 1, MinX = 0, MaxX = 0, MinY = 1, MaxY = 1\<rparr>"

definition item_1_0_1 :: WorkItem where
  "item_1_0_1 =
     \<lparr>Request = \<lparr>req_Z = 1, req_X = 0, req_Y = 1, req_URL = ''https://example.com/tiles/1/0/1.mvt'',
                  req_Headers = []\<rparr>,
      ChunkID = 0, ItemID = 0, Retry = 0, Priority = 0\<rparr>"

text \<open>A tile server that fails every request, with a context that is never done.\<close>

definition server_down :: world where
  "server_down =
     \<lparr>ctxErr = (\<lambda>k. None), fate = (\<lambda>item. Processed),
      fetcherFetch = (\<lambda>item attempt. (None, Some (Errorf ''HTTP 500''))),
      processorProcess = (\<lambda>item attempt response. (None, Some (Errorf ''tile fetch failed''))),
      writerWriteBatch = (\<lambda>tiles. None)\<rparr>"

text \<open>The same with the context canceled before the first chunk.\<close>

definition canceled_at_start :: world where
  "canceled_at_start = server_down\<lparr>ctxErr := (\<lambda>k. Some ContextCanceled)\<rparr>"

text \<open>A fresh job for the single tile 1/0/1 with the default configuration.\<close>

definition job_1_0_1 :: Job where
  "job_1_0_1 = NewJob ''batch-1'' [tile_1_0_1] NewJobConfig"

text \<open>A job over the four tiles of zoom level 1 with \<open>--concurrency 1\<close>.\<close>

definition sequential_config :: JobConfig where
  "sequential_config = NewJobConfig\<lparr>Concurrency := 1\<rparr>"

definition job_zoom1 :: Job where
  "job_zoom1 = NewJob ''batch-4'' [zoom1_range] sequential_config"

text \<open>A job configuration with \<open>--concurrency 20 --chunk-size 50\<close>, and a chunk of 20 work items.\<close>

definition concurrency_20 :: JobConfig where
  "concurrency_20 = NewJobConfig\<lparr>Concurrency := 20, ChunkSize := 50\<rparr>"

definition twenty_items :: "WorkItem list" where
  "twenty_items = map (\<lambda>i. item_1_0_1\<lparr>ItemID := i\<rparr>) [0..19]"

text \<open>The decoded tile of \<open>TestDecodedTileGetLayerNames\<close>: layers water, roads and places.\<close>

definition empty_layer :: "string \<Rightarrow> DecodedLayer" where
  "empty_layer name = \<lparr>layer_Name = name, layer_Features = [], layer_Extent = 4096, layer_Version = 2\<rparr>"

definition three_layer_tile :: DecodedTile where
  "three_layer_tile =
     \<lparr>Layers = [''water'' \<mapsto> empty_layer ''water'', ''roads'' \<mapsto> empty_layer ''roads'',
                ''places'' \<mapsto> empty_layer ''places''],
      tile_Extent = 4096, tile_Version = 2, tile_TileID = (1, 0, 1)\<rparr>"

text \<open>A local fetcher on \<open>/tiles\<close>, a coordinate request at zoom 23, and an empty directory.\<close>

definition tiles_dir :: LocalFetcher where
  "tiles_dir = \<lparr>local_BasePath = ''/tiles'', local_Extension = ''.mvt'', local_Compressed = False\<rparr>"

definition request_23_0_0 :: TileRequest where
  "request_23_0_0 = \<lparr>req_Z = 23, req_X = 0, req_Y = 0, req_URL = [], req_Headers = []\<rparr>"

definition no_files :: "int \<Rightarrow> string \<Rightarrow> fs_outcome" where
  "no_files attempt path = StatNotExist (Errorf ''no such file or directory'')"

text \<open>
  A resumable job over the four tiles of zoom level 1 in chunks of two, a context whose
  deadline passes while the first chunk is processed, and the job as that run leaves it.
\<close>

definition resumable_config :: JobConfig where
  "resumable_config = NewJobConfig\<lparr>ChunkSize := 2, Resume := True\<rparr>"

definition job_resumable :: Job where
  "job_resumable = NewJob ''batch-4'' [zoom1_range] resumable_config"

definition deadline_after_first_chunk :: world where
  "deadline_after_first_chunk =
     server_down\<lparr>ctxErr := (\<lambda>k. if k = 0 then None else Some ContextDeadlineExceeded)\<rparr>"

definition timed_out_job :: Job where
  "timed_out_job =
     \<lparr>job_ID = ''batch-4'', job_TileRanges = [zoom1_range], job_Config = resumable_config,
      job_Status = JobStatusFailed,
      job_Progress = \<lparr>TotalTiles = 4, ProcessedTiles = 2, FailedTiles = 2, SuccessTiles = 0,
                        CurrentChunk = 1, TotalChunks = 2, BytesWritten = 0\<rparr>,
      job_Error = Some ContextDeadlineExceeded\<rparr>"

section \<open>Helper facts about machine integers and validation\<close>

lemma int64_id: "- (2 ^ 63) \<le> i \<Longrightarrow> i < 2 ^ 63 \<Longrightarrow> int64 i = i"
  by (simp add: int64_def)

lemma shift_one_valid: "0 \<le> z \<Longrightarrow> z \<le> 22 \<Longrightarrow> shift_one z = 2 ^ nat z"
proof -
  assume z: "0 \<le> z" "z \<le> 22"
  have "(2::int) ^ nat z \<le> 2 ^ 22"
    using z by (intro power_increasing) auto
  then have lt: "(2::int) ^ nat z < 2 ^ 63"
    by simp
  have "- (2 ^ 63) \<le> (0::int)"
    by simp
  also have "(0::int) \<le> 2 ^ nat z"
    by simp
  finally have "int64 (2 ^ nat z) = 2 ^ nat z"
    using lt by (rule int64_id)
  then show ?thesis using z by (simp add: shift_one_def)
qed

lemma ValidateCoordinates_None:
  "ValidateCoordinates z x y = None \<longleftrightarrow>
     0 \<le> z \<and> z \<le> 22 \<and> 0 \<le> x \<and> x < 2 ^ nat z \<and> 0 \<le> y \<and> y < 2 ^ nat z"
  by (auto simp: ValidateCoordinates_def Let_def)

section \<open>Tile ranges and work items\<close>

lemma validateTileRange_zooms_None:
  "validateTileRange_zooms tr zs = None \<longleftrightarrow>
     (\<forall>z\<in>set zs. 0 \<le> MinX tr \<and> MaxX tr < 2 ^ nat z \<and> 0 \<le> MinY tr \<and> MaxY tr < 2 ^ nat z)"
  by (induction zs) (auto simp: Let_def)

lemma validateTileRange_None:
  "validateTileRange tr = None \<longleftrightarrow>
     0 \<le> MinZ tr \<and> MinZ tr \<le> MaxZ tr \<and> MaxZ tr \<le> 22 \<and> MinX tr \<le> MaxX tr \<and> MinY tr \<le> MaxY tr \<and>
     (\<forall>z\<in>{MinZ tr..MaxZ tr}. 0 \<le> MinX tr \<and> MaxX tr < 2 ^ nat z \<and> 0 \<le> MinY tr \<and> MaxY tr < 2 ^ nat z)"
  by (auto simp: validateTileRange_def validateTileRange_zooms_None)

lemma generate_ys_valid:
  assumes "\<And>y. y \<in> set ys \<Longrightarrow> ValidateCoordinates z x y = None"
  shows "\<exists>items i'. generate_ys z x ys (ws, i) = Inr (ws @ items, i') \<and>
           map tile_id items = map (\<lambda>y. (z, x, y)) ys"
  using assms
proof (induction ys arbitrary: ws i)
  case Nil
  then show ?case by simp
next
  case (Cons y ys)
  let ?item = "NewWorkItem \<lparr>req_Z = z, req_X = x, req_Y = y, req_URL = buildTileURL z x y,
                  req_Headers = []\<rparr> 0 i"
  have v: "ValidateCoordinates z x y = None"
    using Cons.prems by simp
  obtain items i' where r: "generate_ys z x ys (ws @ [?item], i + 1) = Inr ((ws @ [?item]) @ items, i')"
      and m: "map tile_id items = map (\<lambda>y. (z, x, y)) ys"
    using Cons.IH [of "ws @ [?item]" "i + 1"] Cons.prems by auto
  have "generate_ys z x (y # ys) (ws, i) = Inr (ws @ (?item # items), i')"
    using v r by (simp add: Let_def)
  moreover have "map tile_id (?item # items) = map (\<lambda>y. (z, x, y)) (y # ys)"
    using m by (simp add: tile_id_def NewWorkItem_def)
  ultimately show ?case by blast
qed

lemma generate_xs_valid:
  assumes "\<And>x y. x \<in> set xs \<Longrightarrow> y \<in> set [MinY tr..MaxY tr] \<Longrightarrow> ValidateCoordinates z x y = None"
  shows "\<exists>items i'. generate_xs tr z xs (ws, i) = Inr (ws @ items, i') \<and>
           map tile_id items = map (Pair z) (List.product xs [MinY tr..MaxY tr])"
  using assms
proof (induction xs arbitrary: ws i)
  case Nil
  then show ?case by simp
next
  case (Cons x xs)
  obtain items1 i1 where r1: "generate_ys z x [MinY tr..MaxY tr] (ws, i) = Inr (ws @ items1, i1)"
      and m1: "map tile_id items1 = map (\<lambda>y. (z, x, y)) [MinY tr..MaxY tr]"
    using generate_ys_valid [of "[MinY tr..MaxY tr]" z x ws i] Cons.prems by auto
  obtain items2 i2 where r2: "generate_xs tr z xs (ws @ items1, i1) = Inr ((ws @ items1) @ items2, i2)"
      and m2: "map tile_id items2 = map (Pair z) (List.product xs [MinY tr..MaxY tr])"
    using Cons.IH [of "ws @ items1" i1] Cons.prems by auto
  have "generate_xs tr z (x # xs) (ws, i) = Inr (ws @ (items1 @ items2), i2)"
    using r1 r2 by simp
  moreover have "map tile_id (items1 @ items2) = map (Pair z) (List.product (x # xs) [MinY tr..MaxY tr])"
    using m1 m2 by simp
  ultimately show ?case by blast
qed

lemma generate_zs_valid:
  assumes "\<And>z x y. z \<in> set zs \<Longrightarrow> x \<in> set [MinX tr..MaxX tr] \<Longrightarrow> y \<in> set [MinY tr..MaxY tr] \<Longrightarrow>
             ValidateCoordinates z x y = None"
  shows "\<exists>items i'. generate_zs tr zs (ws, i) = Inr (ws @ items, i') \<and>
           map tile_id items = List.product zs (List.product [MinX tr..MaxX tr] [MinY tr..MaxY tr])"
  using assms
proof (induction zs arbitrary: ws i)
  case Nil
  then show ?case by simp
next
  case (Cons z zs)
  obtain items1 i1 where r1: "generate_xs tr z [MinX tr..MaxX tr] (ws, i) = Inr (ws @ items1, i1)"
      and m1: "map tile_id items1 = map (Pair z) (List.product [MinX tr..MaxX tr] [MinY tr..MaxY tr])"
    using generate_xs_valid [of "[MinX tr..MaxX tr]" tr z ws i] Cons.prems by auto
  obtain items2 i2 where r2: "generate_zs tr zs (ws @ items1, i1) = Inr ((ws @ items1) @ items2, i2)"
      and m2: "map tile_id items2 = List.product zs (List.product [MinX tr..MaxX tr] [MinY tr..MaxY tr])"
    using Cons.IH [of "ws @ items1" i1] Cons.prems by auto
  have "generate_zs tr (z # zs) (ws, i) = Inr (ws @ (items1 @ items2), i2)"
    using r1 r2 by simp
  moreover have "map tile_id (items1 @ items2) =
      List.product (z # zs) (List.product [MinX tr..MaxX tr] [MinY tr..MaxY tr])"
    using m1 m2 by simp
  ultimately show ?case by blast
qed

lemma Count_step_exact:
  assumes "0 \<le> acc" "1 \<le> dx" "dx \<le> 2 ^ 22" "1 \<le> dy" "dy \<le> 2 ^ 22"
    and "dx = MaxX tr - MinX tr + 1" "dy = MaxY tr - MinY tr + 1"
    and "acc + int (length zs) * (dx * dy) < 2 ^ 63"
  shows "foldl (Count_step tr) acc zs = acc + int (length zs) * (dx * dy)"
  using assms
proof (induction zs arbitrary: acc)
  case Nil
  then show ?case by simp
next
  case (Cons z zs)
  have p0: "0 \<le> dx * dy" using Cons.prems by simp
  have p1: "dx * dy \<le> 2 ^ 22 * 2 ^ 22"
    using Cons.prems by (intro mult_mono) auto
  have xr: "int64 dx = dx" "int64 dy = dy"
    using Cons.prems by (auto intro!: int64_id)
  have pr: "int64 (dx * dy) = dx * dy"
    using p0 p1 by (intro int64_id) auto
  have le: "acc + dx * dy \<le> acc + int (length (z # zs)) * (dx * dy)"
    using p0 by (simp add: distrib_right)
  have su: "int64 (acc + dx * dy) = acc + dx * dy"
    using Cons.prems(1,8) p0 le by (intro int64_id) auto
  have step: "Count_step tr acc z = acc + dx * dy"
    using xr pr su Cons.prems(6,7) by (simp add: Count_step_def Let_def)
  have "foldl (Count_step tr) (acc + dx * dy) zs = (acc + dx * dy) + int (length zs) * (dx * dy)"
    using Cons.prems p0 by (intro Cons.IH) (auto simp: distrib_right)
  then show ?case
    using step by (simp add: distrib_right)
qed

lemma Count_valid:
  assumes v: "validateTileRange tr = None"
  shows "Count tr = int (length [MinZ tr..MaxZ tr]) * ((MaxX tr - MinX tr + 1) * (MaxY tr - MinY tr + 1))"
proof -
  let ?dx = "MaxX tr - MinX tr + 1" and ?dy = "MaxY tr - MinY tr + 1"
  have z: "0 \<le> MinZ tr" "MinZ tr \<le> MaxZ tr" "MaxZ tr \<le> 22"
    and o: "MinX tr \<le> MaxX tr" "MinY tr \<le> MaxY tr"
    and b: "0 \<le> MinX tr" "MaxX tr < 2 ^ nat (MinZ tr)" "0 \<le> MinY tr" "MaxY tr < 2 ^ nat (MinZ tr)"
    using v by (auto simp: validateTileRange_None)
  have "(2::int) ^ nat (MinZ tr) \<le> 2 ^ 22"
    using z by (intro power_increasing) auto
  then have dx: "1 \<le> ?dx" "?dx \<le> 2 ^ 22" and dy: "1 \<le> ?dy" "?dy \<le> 2 ^ 22"
    using o b by auto
  have p: "?dx * ?dy \<le> 2 ^ 22 * 2 ^ 22"
    using dx dy by (intro mult_mono) auto
  have n: "int (length [MinZ tr..MaxZ tr]) \<le> 23"
    using z by simp
  have "int (length [MinZ tr..MaxZ tr]) * (?dx * ?dy) \<le> 23 * (2 ^ 22 * 2 ^ 22)"
    using n p dx dy by (intro mult_mono) auto
  then have "0 + int (length [MinZ tr..MaxZ tr]) * (?dx * ?dy) < 2 ^ 63"
    by simp
  then have "foldl (Count_step tr) 0 [MinZ tr..MaxZ tr] = 0 + int (length [MinZ tr..MaxZ tr]) * (?dx * ?dy)"
    using dx dy by (intro Count_step_exact) auto
  then show ?thesis by (simp add: Count_def)
qed

text \<open>
  Claim C6.  For a range the coordinator accepts (\<open>min \<le> max\<close> on every axis, zoom levels
  within 0..22, and the x and y bounds inside the \<open>2^z\<close> grid of every zoom level of the
  range), \<open>Count\<close> is the sum over the zoom levels of
  \<open>(max_x - min_x + 1) (max_y - min_y + 1)\<close>, and \<open>generateWorkItems\<close> returns exactly that
  many work items, with pairwise distinct tile ids.
\<close>

theorem Count_and_generateWorkItems_agree:
  assumes v: "validateTileRange tr = None"
  shows "Count tr = (\<Sum>z = MinZ tr..MaxZ tr. (MaxX tr - MinX tr + 1) * (MaxY tr - MinY tr + 1)) \<and>
         (\<exists>items. generateWorkItems [tr] config = Inr items \<and>
                  int (length items) = Count tr \<and> distinct (map tile_id items))"
proof -
  let ?zs = "[MinZ tr..MaxZ tr]" and ?xs = "[MinX tr..MaxX tr]" and ?ys = "[MinY tr..MaxY tr]"
  have z: "0 \<le> MinZ tr" "MinZ tr \<le> MaxZ tr" "MaxZ tr \<le> 22"
    and o: "MinX tr \<le> MaxX tr" "MinY tr \<le> MaxY tr"
    and b: "\<And>z. z \<in> {MinZ tr..MaxZ tr} \<Longrightarrow>
              0 \<le> MinX tr \<and> MaxX tr < 2 ^ nat z \<and> 0 \<le> MinY tr \<and> MaxY tr < 2 ^ nat z"
    using v by (auto simp: validateTileRange_None)
  have c: "Count tr = int (length ?zs) * ((MaxX tr - MinX tr + 1) * (MaxY tr - MinY tr + 1))"
    using v by (rule Count_valid)
  have s: "Count tr = (\<Sum>z = MinZ tr..MaxZ tr. (MaxX tr - MinX tr + 1) * (MaxY tr - MinY tr + 1))"
    using z c by simp
  have valid: "ValidateCoordinates z x y = None"
    if "z \<in> set ?zs" "x \<in> set ?xs" "y \<in> set ?ys" for z x y
    using that b [of z] z by (auto simp: ValidateCoordinates_None)
  obtain items i' where r: "generate_zs tr ?zs ([], 0) = Inr ([] @ items, i')"
      and m: "map tile_id items = List.product ?zs (List.product ?xs ?ys)"
    using generate_zs_valid [of ?zs tr "[]" 0] valid by blast
  have g: "generateWorkItems [tr] config = Inr items"
    using r by (simp add: generateWorkItems_def)
  have "length items = length (map tile_id items)"
    by simp
  also have "\<dots> = length ?zs * (length ?xs * length ?ys)"
    by (simp only: m length_product)
  finally have "int (length items) = int (length ?zs) * (int (length ?xs) * int (length ?ys))"
    by simp
  then have l: "int (length items) = Count tr"
    using o c by simp
  have d: "distinct (map tile_id items)"
    by (simp only: m) (intro distinct_product, simp_all)
  show ?thesis
    using s g l d by blast
qed

theorem Count_and_generateWorkItems_agree_witness:
  "validateTileRange zoom1_range = None \<and> Count zoom1_range = 4 \<and>
   (\<exists>items. generateWorkItems [zoom1_range] NewJobConfig = Inr items \<and>
            int (length items) = 4 \<and> distinct (map tile_id items))"
proof -
  have v: "validateTileRange zoom1_range = None"
    by (simp add: validateTileRange_def zoom1_range_def)
  have c: "Count zoom1_range = 4"
    by (simp add: Count_def zoom1_range_def Count_step_def int64_def)
  obtain items where "generateWorkItems [zoom1_range] NewJobConfig = Inr items"
      and "int (length items) = Count zoom1_range" and "distinct (map tile_id items)"
    using Count_and_generateWorkItems_agree [OF v, of NewJobConfig] by blast
  then show ?thesis
    using v c by auto
qed

lemma generate_ys_url:
  assumes "generate_ys z x ys (ws, i) = Inr (ws', i')"
    and "\<forall>it\<in>set ws. req_URL (Request it) = example_com_url (Request it)"
  shows "\<forall>it\<in>set ws'. req_URL (Request it) = example_com_url (Request it)"
  using assms
proof (induction ys arbitrary: ws i)
  case Nil
  then show ?case by simp
next
  case (Cons y ys)
  show ?case
  proof (cases "ValidateCoordinates z x y")
    case None
    let ?item = "NewWorkItem \<lparr>req_Z = z, req_X = x, req_Y = y, req_URL = buildTileURL z x y,
                  req_Headers = []\<rparr> 0 i"
    have "generate_ys z x ys (ws @ [?item], i + 1) = Inr (ws', i')"
      using Cons.prems(1) None by (simp add: Let_def)
    moreover have "\<forall>it\<in>set (ws @ [?item]). req_URL (Request it) = example_com_url (Request it)"
      using Cons.prems(2) by (simp add: NewWorkItem_def example_com_url_def buildTileURL_def)
    ultimately show ?thesis by (rule Cons.IH)
  next
    case (Some e)
    then show ?thesis using Cons.prems(1) by simp
  qed
qed

lemma generate_xs_url:
  assumes "generate_xs tr z xs st = Inr st'"
    and "\<forall>it\<in>set (fst st). req_URL (Request it) = example_com_url (Request it)"
  shows "\<forall>it\<in>set (fst st'). req_URL (Request it) = example_com_url (Request it)"
  using assms
proof (induction xs arbitrary: st)
  case Nil
  then show ?case by simp
next
  case (Cons x xs)
  obtain st1 where r1: "generate_ys z x [MinY tr..MaxY tr] st = Inr st1"
      and r2: "generate_xs tr z xs st1 = Inr st'"
    using Cons.prems(1) by (auto split: sum.splits)
  have "\<forall>it\<in>set (fst st1). req_URL (Request it) = example_com_url (Request it)"
    using generate_ys_url [of z x "[MinY tr..MaxY tr]" "fst st" "snd st" "fst st1" "snd st1"] r1 Cons.prems(2)
    by simp
  with r2 show ?case by (rule Cons.IH)
qed

lemma generate_zs_url:
  assumes "generate_zs tr zs st = Inr st'"
    and "\<forall>it\<in>set (fst st). req_URL (Request it) = example_com_url (Request it)"
  shows "\<forall>it\<in>set (fst st'). req_URL (Request it) = example_com_url (Request it)"
  using assms
proof (induction zs arbitrary: st)
  case Nil
  then show ?case by simp
next
  case (Cons z zs)
  obtain st1 where r1: "generate_xs tr z [MinX tr..MaxX tr] st = Inr st1"
      and r2: "generate_zs tr zs st1 = Inr st'"
    using Cons.prems(1) by (auto split: sum.splits)
  have "\<forall>it\<in>set (fst st1). req_URL (Request it) = example_com_url (Request it)"
    using r1 Cons.prems(2) by (rule generate_xs_url)
  with r2 show ?case by (rule Cons.IH)
qed

lemma generate_ranges_url:
  assumes "generate_ranges rs st = Inr st'"
    and "\<forall>it\<in>set (fst st). req_URL (Request it) = example_com_url (Request it)"
  shows "\<forall>it\<in>set (fst st'). req_URL (Request it) = example_com_url (Request it)"
  using assms
proof (induction rs arbitrary: st)
  case Nil
  then show ?case by simp
next
  case (Cons r rs)
  obtain st1 where r1: "generate_zs r [MinZ r..MaxZ r] st = Inr st1"
      and r2: "generate_ranges rs st1 = Inr st'"
    using Cons.prems(1) by (auto split: sum.splits)
  have "\<forall>it\<in>set (fst st1). req_URL (Request it) = example_com_url (Request it)"
    using r1 Cons.prems(2) by (rule generate_zs_url)
  with r2 show ?case by (rule Cons.IH)
qed

text \<open>
  Claim C10.  Every work item the executor generates carries the locator
  \<open>https://example.com/tiles/{z}/{x}/{y}.mvt\<close> of its own coordinates, and the job
  configuration has no influence on the items generated.  (Neither \<open>generateWorkItems\<close>
  nor \<open>buildTileURL\<close> has a base URL, URL template or base path among its inputs.)
\<close>

theorem generateWorkItems_url_is_hardcoded:
  assumes "generateWorkItems ranges config = Inr items" and "item \<in> set items"
  shows "req_URL (Request item) =
           ''https://example.com/tiles/'' @ fmt_d (req_Z (Request item)) @ ''/'' @
           fmt_d (req_X (Request item)) @ ''/'' @ fmt_d (req_Y (Request item)) @ ''.mvt'' \<and>
         generateWorkItems ranges config' = Inr items"
proof -
  obtain i where "generate_ranges ranges ([], 0) = Inr (items, i)"
    using assms(1) by (auto simp: generateWorkItems_def split: sum.splits)
  then have "\<forall>it\<in>set (fst (items, i)). req_URL (Request it) = example_com_url (Request it)"
    by (rule generate_ranges_url) simp
  then have "req_URL (Request item) = example_com_url (Request item)"
    using assms(2) by simp
  moreover have "generateWorkItems ranges config' = generateWorkItems ranges config"
    by (simp add: generateWorkItems_def)
  ultimately show ?thesis
    using assms(1) by (simp add: example_com_url_def)
qed

lemma gen_tile_1_0_1: "generateWorkItems [tile_1_0_1] c = Inr [item_1_0_1]"
  by (simp add: generateWorkItems_def tile_1_0_1_def item_1_0_1_def ValidateCoordinates_def
      NewWorkItem_def buildTileURL_def fmt_d_def nat_digits.simps)

theorem generateWorkItems_url_is_hardcoded_witness:
  "generateWorkItems [tile_1_0_1] NewJobConfig = Inr [item_1_0_1] \<and> item_1_0_1 \<in> set [item_1_0_1] \<and>
   req_URL (Request item_1_0_1) = ''https://example.com/tiles/1/0/1.mvt'' \<and>
   generateWorkItems [tile_1_0_1] (NewJobConfig\<lparr>Concurrency := 50\<rparr>) = Inr [item_1_0_1]"
proof -
  have g: "generateWorkItems [tile_1_0_1] NewJobConfig = Inr [item_1_0_1]"
    by (rule gen_tile_1_0_1)
  have m: "item_1_0_1 \<in> set [item_1_0_1]"
    by simp
  show ?thesis
    using g m generateWorkItems_url_is_hardcoded [OF g m, of "NewJobConfig\<lparr>Concurrency := 50\<rparr>"]
    by (simp add: item_1_0_1_def)
qed

section \<open>Geometry\<close>

text \<open>
  Claim C9.  The traversal satisfies the functor laws and keeps the shape: with the
  identity on points it returns the geometry unchanged, one pass with \<open>U \<circ> T\<close> equals
  a pass with \<open>T\<close> followed by a pass with \<open>U\<close>, and the nesting of rings, polygons and
  multipolygons (the lengths at every level) is that of the input.  This holds for every
  geometry, also for the two variants the traversal passes through untouched.
\<close>

theorem applyGeometryTransform_functor_laws:
  "applyGeometryTransform g (\<lambda>p. p) = g \<and>
   applyGeometryTransform g (U \<circ> T) = applyGeometryTransform (applyGeometryTransform g T) U \<and>
   shape_of (applyGeometryTransform g T) = shape_of g"
  by (cases g) (simp_all add: comp_def)

lemma tile_transform_spec:
  assumes "0 \<le> z" "z \<le> 22"
  shows "tile_transform d z x y = spec_tile_to_mercator z x y (extent d)"
proof
  fix pt
  show "tile_transform d z x y pt = spec_tile_to_mercator z x y (extent d) pt"
    using assms
    by (simp add: tile_transform_def spec_tile_to_mercator_def shift_one_valid Let_def
        webMercatorMax_def mult.commute)
qed

lemma vertices_applyGeometryTransform:
  "supported g \<Longrightarrow> vertices (applyGeometryTransform g T) = map T (vertices g)"
  by (cases g) (simp_all add: map_concat comp_def)

text \<open>
  Claim C8.  For a valid tile \<open>(z, x, y)\<close> and a decoder of extent \<open>E \<noteq> 0\<close>, the
  decode-time promotion maps every vertex \<open>(px, py)\<close> of a decoded geometry (point,
  multipoint, linestring, multilinestring, ring, polygon, multipolygon) to
  \<open>((2 gx - 1) M, (1 - 2 gy) M)\<close> with \<open>gx = (x + px/E)/2^z\<close>, \<open>gy = (y + py/E)/2^z\<close> and
  \<open>M = 20037508.342789244\<close>, vertex by vertex and in place.  Arithmetic is over the reals.
\<close>

theorem transformGeometry_tile_to_web_mercator:
  assumes "ValidateCoordinates z x y = None" and "extent d \<noteq> 0" and "supported g"
  shows "vertices (transformGeometry d g z x y) =
           map (spec_tile_to_mercator z x y (extent d)) (vertices g) \<and>
         shape_of (transformGeometry d g z x y) = shape_of g"
proof -
  have z: "0 \<le> z" "z \<le> 22"
    using assms(1) by (simp_all add: ValidateCoordinates_None)
  have shape: "shape_of (applyGeometryTransform g T) = shape_of g" for T
    by (cases g) simp_all
  show ?thesis
    using assms(3) z
    by (simp add: transformGeometry_def vertices_applyGeometryTransform tile_transform_spec shape)
qed

theorem transformGeometry_tile_to_web_mercator_witness:
  "ValidateCoordinates 1 0 1 = None \<and> extent NewDecoder \<noteq> 0 \<and> supported (Polygon [[(0, 0), (4096, 0), (4096, 4096), (0, 0)]]) \<and>
   vertices (transformGeometry NewDecoder (Polygon [[(0, 0), (4096, 0), (4096, 4096), (0, 0)]]) 1 0 1) =
     [(- 20037508.342789244, 0), (0, 0), (0, - 20037508.342789244), (- 20037508.342789244, 0)]"
proof -
  have v: "ValidateCoordinates 1 0 1 = None"
    by (simp add: ValidateCoordinates_def)
  have e: "extent NewDecoder \<noteq> 0"
    by (simp add: NewDecoder_def)
  have s: "supported (Polygon [[(0, 0), (4096, 0), (4096, 4096), (0, 0)]])"
    by simp
  show ?thesis
    using v e s transformGeometry_tile_to_web_mercator [OF v e s]
    by (simp add: spec_tile_to_mercator_def NewDecoder_def)
qed

section \<open>Per-item retry loop\<close>

lemma sleeps_append: "sleeps (xs @ ys) = sleeps xs @ sleeps ys"
  by (induction xs rule: sleeps.induct) simp_all

lemma attempts_made_append: "attempts_made (xs @ ys) = attempts_made xs + attempts_made ys"
  by (induction xs) (simp_all add: attempts_made_def)

lemma processWorkItem_loop_done:
  "3 < attempt \<Longrightarrow> processWorkItem_loop w workItem attempt lastErr effs =
     (\<lparr>res_Item = workItem, res_Tile = None, res_Error = lastErr, res_Attempts = 4\<rparr>, effs)"
  by (simp add: processWorkItem_loop.simps)

lemma processWorkItem_loop_failed_attempt:
  assumes "attempt \<le> 3" and "attempt_error w workItem attempt = Some e"
  shows "\<exists>calls. processWorkItem_loop w workItem attempt lastErr effs =
           processWorkItem_loop w workItem (attempt + 1) (Some e)
             ((if attempt > 0 then effs @ [Sleep (attempt * Second)] else effs) @ calls) \<and>
           attempts_made calls = 1 \<and> sleeps calls = []"
proof (cases "snd (fetcherFetch w workItem attempt)")
  case None
  then obtain e' where
    "snd (processorProcess w workItem attempt (fst (fetcherFetch w workItem attempt))) = Some e'"
    "e = Wrap ''process failed'' e'"
    using assms(2) by (auto simp: attempt_error_def split: option.splits)
  then have "processWorkItem_loop w workItem attempt lastErr effs =
           processWorkItem_loop w workItem (attempt + 1) (Some e)
             ((if attempt > 0 then effs @ [Sleep (attempt * Second)] else effs) @ [FetchCall, ProcessCall])"
    using assms(1) None
    by (subst processWorkItem_loop.simps) (auto simp: Let_def split: prod.splits)
  then show ?thesis
    by (intro exI [of _ "[FetchCall, ProcessCall]"]) (simp add: attempts_made_def)
next
  case (Some e')
  then have "e = Wrap ''fetch failed'' e'"
    using assms(2) by (simp add: attempt_error_def)
  then have "processWorkItem_loop w workItem attempt lastErr effs =
           processWorkItem_loop w workItem (attempt + 1) (Some e)
             ((if attempt > 0 then effs @ [Sleep (attempt * Second)] else effs) @ [FetchCall])"
    using assms(1) Some
    by (subst processWorkItem_loop.simps) (auto simp: Let_def split: prod.splits)
  then show ?thesis
    by (intro exI [of _ "[FetchCall]"]) (simp add: attempts_made_def)
qed

text \<open>
  Claim C3, as the code has it.  For a work item whose fetch or processing fails on every
  try, \<open>processWorkItem\<close> makes four attempts in all (the first try and three retries,
  loop indices 0 to 3), sleeps \<open>attempt\<close> seconds before retry number \<open>attempt\<close> (1, 2
  and 3 seconds), and returns a result without tile that carries the error of the last
  attempt and \<open>Attempts = 4\<close>.
\<close>

theorem processWorkItem_gives_up_after_four_attempts:
  assumes "\<forall>attempt\<in>{0, 1, 2, 3}. attempt_error w workItem attempt \<noteq> None"
  shows "attempts_made (snd (processWorkItem w workItem)) = 4 \<and>
         sleeps (snd (processWorkItem w workItem)) = [1 * Second, 2 * Second, 3 * Second] \<and>
         fst (processWorkItem w workItem) =
           \<lparr>res_Item = workItem, res_Tile = None, res_Error = attempt_error w workItem 3,
            res_Attempts = 4\<rparr>"
proof -
  obtain e0 e1 e2 e3 where e:
    "attempt_error w workItem 0 = Some e0" "attempt_error w workItem 1 = Some e1"
    "attempt_error w workItem 2 = Some e2" "attempt_error w workItem 3 = Some e3"
    using assms by auto
  obtain c0 where s0: "processWorkItem_loop w workItem 0 None [] =
      processWorkItem_loop w workItem 1 (Some e0) c0"
    and a0: "attempts_made c0 = 1" "sleeps c0 = []"
    using processWorkItem_loop_failed_attempt [OF _ e(1), of None "[]"] by auto
  obtain c1 where s1: "processWorkItem_loop w workItem 1 (Some e0) c0 =
      processWorkItem_loop w workItem 2 (Some e1) ((c0 @ [Sleep (1 * Second)]) @ c1)"
    and a1: "attempts_made c1 = 1" "sleeps c1 = []"
    using processWorkItem_loop_failed_attempt [OF _ e(2), of "Some e0" c0] by auto
  let ?t1 = "(c0 @ [Sleep (1 * Second)]) @ c1"
  obtain c2 where s2: "processWorkItem_loop w workItem 2 (Some e1) ?t1 =
      processWorkItem_loop w workItem 3 (Some e2) ((?t1 @ [Sleep (2 * Second)]) @ c2)"
    and a2: "attempts_made c2 = 1" "sleeps c2 = []"
    using processWorkItem_loop_failed_attempt [OF _ e(3), of "Some e1" ?t1] by auto
  let ?t2 = "(?t1 @ [Sleep (2 * Second)]) @ c2"
  obtain c3 where s3: "processWorkItem_loop w workItem 3 (Some e2) ?t2 =
      processWorkItem_loop w workItem 4 (Some e3) ((?t2 @ [Sleep (3 * Second)]) @ c3)"
    and a3: "attempts_made c3 = 1" "sleeps c3 = []"
    using processWorkItem_loop_failed_attempt [OF _ e(4), of "Some e2" ?t2] by auto
  let ?t3 = "(?t2 @ [Sleep (3 * Second)]) @ c3"
  have "processWorkItem w workItem =
      (\<lparr>res_Item = workItem, res_Tile = None, res_Error = Some e3, res_Attempts = 4\<rparr>, ?t3)"
    unfolding processWorkItem_def s0 s1 s2 s3 by (rule processWorkItem_loop_done) simp
  then show ?thesis
    using a0 a1 a2 a3 e(4)
    by (simp add: attempts_made_append sleeps_append attempts_made_def)
qed

lemma server_down_attempt_error:
  "attempt_error server_down workItem attempt = Some (Wrap ''fetch failed'' (Errorf ''HTTP 500''))"
  by (simp add: attempt_error_def server_down_def)

theorem processWorkItem_gives_up_after_four_attempts_witness:
  "attempt_error server_down item_1_0_1 0 = Some (Wrap ''fetch failed'' (Errorf ''HTTP 500'')) \<and>
   attempt_error server_down item_1_0_1 1 = Some (Wrap ''fetch failed'' (Errorf ''HTTP 500'')) \<and>
   attempt_error server_down item_1_0_1 2 = Some (Wrap ''fetch failed'' (Errorf ''HTTP 500'')) \<and>
   attempt_error server_down item_1_0_1 3 = Some (Wrap ''fetch failed'' (Errorf ''HTTP 500'')) \<and>
   attempts_made (snd (processWorkItem server_down item_1_0_1)) = 4 \<and>
   sleeps (snd (processWorkItem server_down item_1_0_1)) = [1000, 2000, 3000] \<and>
   res_Error (fst (processWorkItem server_down item_1_0_1)) =
     Some (Wrap ''fetch failed'' (Errorf ''HTTP 500'')) \<and>
   res_Attempts (fst (processWorkItem server_down item_1_0_1)) = 4"
proof -
  have h: "\<forall>attempt\<in>{0, 1, 2, 3}. attempt_error server_down item_1_0_1 attempt \<noteq> None"
    by (simp add: server_down_attempt_error)
  show ?thesis
    using processWorkItem_gives_up_after_four_attempts [OF h]
    by (simp add: server_down_attempt_error Second_def)
qed

text \<open>
  Against a server that fails every request the loop calls \<open>Fetch\<close> four times, which
  is more than three.
\<close>

theorem processWorkItem_three_attempts_counterexample:
  "attempts_made (snd (processWorkItem server_down item_1_0_1)) = 4 \<and>
   \<not> attempts_made (snd (processWorkItem server_down item_1_0_1)) \<le> 3"
  by (simp add: processWorkItem_def processWorkItem_loop.simps server_down_def attempts_made_def)

section \<open>Fetcher retry\<close>

text \<open>
  Both retry loops call \<open>Fetch\<close> at most \<open>max_retries + 1\<close> times (the local fetcher
  with its constant 3), the HTTP fetcher stops after one call on a 4xx status, and the
  local fetcher stops after one call when the error \<open>Fetch\<close> returns is an
  \<open>*internal.Error\<close> with code not-found, permission or validation.
\<close>

lemma HTTP_FetchWithRetry_loop_bound:
  "attempts_made (snd (HTTP_FetchWithRetry_loop f net request attempt lastResponse lastErr effs))
     \<le> attempts_made effs + nat (http_MaxRetries f + 1 - attempt)"
proof (induction f net request attempt lastResponse lastErr effs
       rule: HTTP_FetchWithRetry_loop.induct)
  case (1 f net request attempt lastResponse lastErr effs)
  show ?case
  proof (cases "attempt \<le> http_MaxRetries f")
    case False
    then show ?thesis
      by (subst HTTP_FetchWithRetry_loop.simps) simp
  next
    case True
    let ?effs1 = "if attempt > 0 then effs @ [Sleep (attempt * attempt * Second)] else effs"
    obtain response err where fe: "HTTP_Fetch (net attempt) request = (response, err)"
      by (cases "HTTP_Fetch (net attempt) request")
    have a1: "attempts_made (?effs1 @ [FetchCall]) = attempts_made effs + 1"
      by (simp add: attempts_made_def)
    show ?thesis
    proof (cases "err \<noteq> None \<and> HTTP_shouldRetry response err")
      case False
      then have "snd (HTTP_FetchWithRetry_loop f net request attempt lastResponse lastErr effs)
                   = ?effs1 @ [FetchCall]"
        using True fe by (subst HTTP_FetchWithRetry_loop.simps) (auto simp: Let_def)
      then show ?thesis
        using a1 True by simp
    next
      case retry: True
      then have "HTTP_FetchWithRetry_loop f net request attempt lastResponse lastErr effs =
                 HTTP_FetchWithRetry_loop f net request (attempt + 1) response err (?effs1 @ [FetchCall])"
        using True fe by (subst HTTP_FetchWithRetry_loop.simps) (auto simp: Let_def)
      moreover have "attempts_made (snd (HTTP_FetchWithRetry_loop f net request (attempt + 1) response err
                       (?effs1 @ [FetchCall])))
                     \<le> attempts_made (?effs1 @ [FetchCall]) + nat (http_MaxRetries f + 1 - (attempt + 1))"
        using "1.IH" [OF True refl fe [symmetric] refl refl] retry by simp
      ultimately show ?thesis
        using a1 True by simp
    qed
  qed
qed

lemma HTTP_FetchWithRetry_attempts_bound:
  "attempts_made (snd (HTTP_FetchWithRetry f net request)) \<le> nat (http_MaxRetries f + 1)"
  using HTTP_FetchWithRetry_loop_bound [of f net request 0 None None "[]"]
  by (simp add: HTTP_FetchWithRetry_def attempts_made_def)

lemma HTTP_FetchWithRetry_client_error_once:
  assumes "0 \<le> http_MaxRetries f" and "net 0 = Responded status data"
    and "400 \<le> status" and "status < 500"
  shows "attempts_made (snd (HTTP_FetchWithRetry f net request)) = 1"
  using assms
  by (simp add: HTTP_FetchWithRetry_def HTTP_FetchWithRetry_loop.simps [of _ _ _ 0] Let_def
      HTTP_shouldRetry_def attempts_made_def empty_response_def)

lemma Local_FetchWithRetry_loop_bound:
  "attempts_made (snd (Local_FetchWithRetry_loop f fs request maxRetries attempt lastResponse lastErr effs))
     \<le> attempts_made effs + nat (maxRetries + 1 - attempt)"
proof (induction f fs request maxRetries attempt lastResponse lastErr effs
       rule: Local_FetchWithRetry_loop.induct)
  case (1 f fs request maxRetries attempt lastResponse lastErr effs)
  show ?case
  proof (cases "attempt \<le> maxRetries")
    case False
    then show ?thesis
      by (subst Local_FetchWithRetry_loop.simps) simp
  next
    case True
    let ?effs1 = "if attempt > 0 then effs @ [Sleep (attempt * 100 * Millisecond)] else effs"
    obtain response err where fe: "Local_Fetch f (fs attempt) request = (response, err)"
      by (cases "Local_Fetch f (fs attempt) request")
    have a1: "attempts_made (?effs1 @ [FetchCall]) = attempts_made effs + 1"
      by (simp add: attempts_made_def)
    show ?thesis
    proof (cases "err \<noteq> None \<and> Local_shouldRetry response err")
      case False
      then have "snd (Local_FetchWithRetry_loop f fs request maxRetries attempt lastResponse lastErr effs)
                   = ?effs1 @ [FetchCall]"
        using True fe by (subst Local_FetchWithRetry_loop.simps) (auto simp: Let_def)
      then show ?thesis
        using a1 True by simp
    next
      case retry: True
      then have "Local_FetchWithRetry_loop f fs request maxRetries attempt lastResponse lastErr effs =
                 Local_FetchWithRetry_loop f fs request maxRetries (attempt + 1) response err
                   (?effs1 @ [FetchCall])"
        using True fe by (subst Local_FetchWithRetry_loop.simps) (auto simp: Let_def)
      moreover have "attempts_made (snd (Local_FetchWithRetry_loop f fs request maxRetries (attempt + 1)
                       response err (?effs1 @ [FetchCall])))
                     \<le> attempts_made (?effs1 @ [FetchCall]) + nat (maxRetries + 1 - (attempt + 1))"
        using "1.IH" [OF True refl fe [symmetric] refl refl] retry by simp
      ultimately show ?thesis
        using a1 True by simp
    qed
  qed
qed

lemma Local_FetchWithRetry_attempts_bound:
  "attempts_made (snd (Local_FetchWithRetry f fs request)) \<le> 4"
  using Local_FetchWithRetry_loop_bound [of f fs request 3 0 None None "[]"]
  by (simp add: Local_FetchWithRetry_def attempts_made_def)

lemma Local_FetchWithRetry_typed_error_once:
  assumes "snd (Local_Fetch f (fs 0) request) = Some (AppError code msg cause)"
    and "code = ErrorCodeNotFound \<or> code = ErrorCodePermission \<or> code = ErrorCodeValidation"
  shows "attempts_made (snd (Local_FetchWithRetry f fs request)) = 1"
proof -
  obtain response where fe: "Local_Fetch f (fs 0) request = (response, Some (AppError code msg cause))"
    using assms(1) by (cases "Local_Fetch f (fs 0) request") simp
  have "response \<noteq> None"
    using fe by (auto simp: Local_Fetch_def Let_def split: sum.splits fs_outcome.splits)
  then have "\<not> Local_shouldRetry response (Some (AppError code msg cause))"
    using assms(2) by (auto simp: Local_shouldRetry_def)
  then show ?thesis
    using fe
    by (simp add: Local_FetchWithRetry_def Local_FetchWithRetry_loop.simps [of _ _ _ _ 0] Let_def
        attempts_made_def)
qed

text \<open>
  Claim C4 at a request the local fetcher cannot turn into a path (no locator, zoom 23).
  \<open>Fetch\<close> classifies the failure as a validation error in the response, but returns the
  unwrapped error of \<open>buildFilePath\<close>; \<open>shouldRetry\<close> looks at the returned error only,
  finds no \<open>*internal.Error\<close> and retries.  The non-retryable failure is attempted four
  times, with 100, 200 and 300 ms of sleep, where the claim says exactly once.
\<close>

theorem Local_FetchWithRetry_retries_validation_failure:
  "Local_Fetch tiles_dir (no_files 0) request_23_0_0 =
     (Some (failed_response request_23_0_0
        (AppError ErrorCodeValidation ''failed to build file path''
           (Some (Wrap ''invalid coordinates'' (Errorf ''invalid zoom level''))))),
      Some (Wrap ''invalid coordinates'' (Errorf ''invalid zoom level''))) \<and>
   attempts_made (snd (Local_FetchWithRetry tiles_dir no_files request_23_0_0)) = 4 \<and>
   sleeps (snd (Local_FetchWithRetry tiles_dir no_files request_23_0_0)) = [100, 200, 300]"
proof -
  have f: "Local_Fetch tiles_dir (no_files k) request_23_0_0 =
     (Some (failed_response request_23_0_0
        (AppError ErrorCodeValidation ''failed to build file path''
           (Some (Wrap ''invalid coordinates'' (Errorf ''invalid zoom level''))))),
      Some (Wrap ''invalid coordinates'' (Errorf ''invalid zoom level'')))" for k
    by (simp add: Local_Fetch_def buildFilePath_def tiles_dir_def request_23_0_0_def
        ValidateCoordinates_def)
  show ?thesis
    by (simp add: f Local_FetchWithRetry_def Local_FetchWithRetry_loop.simps Let_def
        Local_shouldRetry_def attempts_made_def Millisecond_def)
qed

section \<open>Job progress\<close>

lemma progress_updates_append:
  "progress_updates (xs @ ys) = progress_updates xs @ progress_updates ys"
  by (induction xs rule: progress_updates.induct) simp_all

lemma collect_results_counts:
  assumes "collect_results arrived (results, tiles, s, f) = (results', tiles', s', f')"
  shows "length results' = length results + length arrived \<and> s' + f' = s + f + int (length arrived)"
  using assms
  by (induction arrived arbitrary: results tiles s f) (auto split: if_splits)

lemma worker_item_length: "length (worker_item w workItem) \<le> 1"
  by (simp add: worker_item_def split: fate.splits)

lemma arrived_length: "length (concat (map (worker_item w) workItems)) \<le> length workItems"
proof (induction workItems)
  case Nil
  then show ?case by simp
next
  case (Cons a workItems)
  then show ?case
    using worker_item_length [of w a] by simp
qed

lemma ProcessChunk_counts:
  assumes "ProcessChunk w chunk = Inr r"
  shows "int (length (cr_Results (run_result r))) =
           cr_SuccessCount (run_result r) + cr_FailureCount (run_result r) \<and>
         length (cr_Results (run_result r)) \<le> length chunk"
proof -
  obtain results tiles s f where c:
    "collect_results (concat (map (worker_item w) chunk)) ([], [], 0, 0) = (results, tiles, s, f)"
    by (metis prod_cases4)
  have r: "cr_Results (run_result r) = results" "cr_SuccessCount (run_result r) = s"
    "cr_FailureCount (run_result r) = f"
    using assms c by (auto simp: ProcessChunk_def Let_def split: list.splits option.splits if_splits)
  have "length results = length (concat (map (worker_item w) chunk))"
    and "s + f = int (length (concat (map (worker_item w) chunk)))"
    using collect_results_counts [OF c] by simp_all
  then show ?thesis
    using r arrived_length [of w chunk] by simp
qed

lemma ProcessChunk_nonempty: "chunk \<noteq> [] \<Longrightarrow> \<exists>r. ProcessChunk w chunk = Inr r"
  by (auto simp: ProcessChunk_def Let_def split: list.splits option.splits prod.splits)

lemma Process_chunks_finished:
  "\<not> chunkStart < int (length workItems) \<Longrightarrow>
   Process_chunks w workItems job runs chunkStart reps =
     Inr \<lparr>final_job = completeJobSuccessfully job,
          reports = reps @ [ReportJobComplete (completeJobSuccessfully job)],
          chunk_runs = runs, returned = None\<rparr>"
  by (subst Process_chunks.simps) (simp add: Let_def)

lemma Process_chunks_done:
  "chunkStart < int (length workItems) \<Longrightarrow> ctxErr w (length runs) = Some e \<Longrightarrow>
   Process_chunks w workItems job runs chunkStart reps =
     Inr \<lparr>final_job = job\<lparr>job_Status := JobStatusFailed, job_Error := Some e\<rparr>,
          reports = reps @ [ReportJobFailed (job\<lparr>job_Status := JobStatusFailed, job_Error := Some e\<rparr>) e],
          chunk_runs = runs, returned = Some e\<rparr>"
  by (subst Process_chunks.simps) (simp add: completeJobWithError_def Let_def)

text \<open>
  One pass of the chunk loop: the slice expression panics when the wrapped sum lies below
  \<open>chunkStart\<close>; otherwise the loop cuts the chunk at \<open>chunkStart\<close>, and what follows
  depends on the result of \<open>ProcessChunk\<close>.
\<close>

lemma Process_chunks_slice_panic:
  assumes "chunkStart < int (length workItems)" and "ctxErr w (length runs) = None"
    and "int64 (chunkStart + ChunkSize (job_Config job)) < chunkStart"
  shows "Process_chunks w workItems job runs chunkStart reps = Inl SliceBoundsOutOfRange"
  using assms by (subst Process_chunks.simps) (simp add: Let_def)

lemma Process_chunks_chunk:
  assumes "chunkStart < int (length workItems)" and "ctxErr w (length runs) = None"
    and "0 \<le> chunkStart" and "chunkStart \<le> int64 (chunkStart + ChunkSize (job_Config job))"
  defines "chunkEnd \<equiv> min (int64 (chunkStart + ChunkSize (job_Config job))) (int (length workItems))"
  defines "chunk \<equiv> take (nat (chunkEnd - chunkStart)) (drop (nat chunkStart) workItems)"
  defines "job1 \<equiv> job\<lparr>job_Progress := (job_Progress job)\<lparr>CurrentChunk := int (length runs) + 1\<rparr>\<rparr>"
  shows "Process_chunks w workItems job runs chunkStart reps =
     (case ProcessChunk w chunk of
        Inl p \<Rightarrow> Inl p
      | Inr r \<Rightarrow>
          if run_err r \<noteq> None \<and> FailOnError (job_Config job) then
            Inr \<lparr>final_job = job1\<lparr>job_Status := JobStatusFailed,
                     job_Error := Some (wrap_cause ''chunk failed'' (run_err r))\<rparr>,
                 reports = reps @ [ReportJobFailed (job1\<lparr>job_Status := JobStatusFailed,
                     job_Error := Some (wrap_cause ''chunk failed'' (run_err r))\<rparr>)
                     (wrap_cause ''chunk failed'' (run_err r))],
                 chunk_runs = runs, returned = run_err r\<rparr>
          else Process_chunks w workItems (updateJobProgress job1 (run_result r)) (runs @ [r])
                 (int64 (chunkStart + ChunkSize (job_Config job)))
                 (reps @ [ReportChunkComplete (updateJobProgress job1 (run_result r)) (run_result r)]))"
  using assms(1-4) unfolding chunkEnd_def chunk_def job1_def
  by (subst Process_chunks.simps)
     (auto simp: Let_def min_def completeJobWithError_def split: sum.splits)

lemma chunk_length:
  assumes "chunkStart < int (length workItems)" "0 \<le> chunkStart" "chunkStart \<le> next"
  shows "int (length (take (nat (min next (int (length workItems)) - chunkStart))
                 (drop (nat chunkStart) workItems))) =
         min next (int (length workItems)) - chunkStart"
  using assms by (auto simp: min_def)

lemma ProcessChunk_empty: "ProcessChunk w [] = Inl IndexOutOfRange"
  by (simp add: ProcessChunk_def Let_def split: prod.splits)

text \<open>
  A pass that goes on to the next chunk: the chunk was not empty, so the loop index grew,
  and the counters of the job were raised by the results of the chunk.
\<close>

lemma Process_chunks_next:
  assumes run: "Process_chunks w workItems job runs chunkStart reps = Inr run"
    and lt: "chunkStart < int (length workItems)" and ctx: "ctxErr w (length runs) = None"
    and pos: "0 \<le> chunkStart"
  defines "next \<equiv> int64 (chunkStart + ChunkSize (job_Config job))"
  defines "chunk \<equiv> take (nat (min next (int (length workItems)) - chunkStart))
                     (drop (nat chunkStart) workItems)"
  defines "job1 \<equiv> job\<lparr>job_Progress := (job_Progress job)\<lparr>CurrentChunk := int (length runs) + 1\<rparr>\<rparr>"
  shows "\<exists>r. ProcessChunk w chunk = Inr r \<and> chunkStart < next \<and>
           int (length chunk) = min next (int (length workItems)) - chunkStart \<and>
           (if run_err r \<noteq> None \<and> FailOnError (job_Config job) then
              run = \<lparr>final_job = job1\<lparr>job_Status := JobStatusFailed,
                        job_Error := Some (wrap_cause ''chunk failed'' (run_err r))\<rparr>,
                     reports = reps @ [ReportJobFailed (job1\<lparr>job_Status := JobStatusFailed,
                        job_Error := Some (wrap_cause ''chunk failed'' (run_err r))\<rparr>)
                        (wrap_cause ''chunk failed'' (run_err r))],
                     chunk_runs = runs, returned = run_err r\<rparr>
            else Process_chunks w workItems (updateJobProgress job1 (run_result r)) (runs @ [r]) next
                   (reps @ [ReportChunkComplete (updateJobProgress job1 (run_result r)) (run_result r)])
                 = Inr run)"
proof -
  have le: "chunkStart \<le> next"
  proof (rule ccontr)
    assume "\<not> chunkStart \<le> next"
    then have "Process_chunks w workItems job runs chunkStart reps = Inl SliceBoundsOutOfRange"
      using lt ctx unfolding next_def by (intro Process_chunks_slice_panic) simp_all
    then show False using run by simp
  qed
  note step = Process_chunks_chunk [OF lt ctx pos le [unfolded next_def], of reps,
      folded next_def, folded chunk_def, folded job1_def]
  have cl: "int (length chunk) = min next (int (length workItems)) - chunkStart"
    unfolding chunk_def using lt pos le by (rule chunk_length)
  obtain r where r: "ProcessChunk w chunk = Inr r"
    using run step by (cases "ProcessChunk w chunk") simp_all
  have "chunk \<noteq> []"
    using r ProcessChunk_empty [of w] by auto
  then have "0 < int (length chunk)"
    by simp
  then have "chunkStart < next"
    using cl lt by (simp add: min_def split: if_splits)
  moreover have "if run_err r \<noteq> None \<and> FailOnError (job_Config job) then
              run = \<lparr>final_job = job1\<lparr>job_Status := JobStatusFailed,
                        job_Error := Some (wrap_cause ''chunk failed'' (run_err r))\<rparr>,
                     reports = reps @ [ReportJobFailed (job1\<lparr>job_Status := JobStatusFailed,
                        job_Error := Some (wrap_cause ''chunk failed'' (run_err r))\<rparr>)
                        (wrap_cause ''chunk failed'' (run_err r))],
                     chunk_runs = runs, returned = run_err r\<rparr>
            else Process_chunks w workItems (updateJobProgress job1 (run_result r)) (runs @ [r]) next
                   (reps @ [ReportChunkComplete (updateJobProgress job1 (run_result r)) (run_result r)])
                 = Inr run"
    using run step r by (auto split: if_splits)
  ultimately show ?thesis
    using r cl by blast
qed

lemma Process_chunks_counters:
  assumes "Process_chunks w workItems job runs chunkStart reps = Inr run"
    and "0 \<le> chunkStart"
    and "counters_ok (int (length workItems)) (job_Progress job)"
    and "ProcessedTiles (job_Progress job) \<le> chunkStart"
    and "\<forall>p\<in>set (progress_updates reps). counters_ok (int (length workItems)) p"
  shows "\<forall>p\<in>set (progress_updates (reports run)). counters_ok (int (length workItems)) p"
  using assms
proof (induction "nat (int (length workItems) - chunkStart)" arbitrary: job runs chunkStart reps
       rule: less_induct)
  case less
  let ?n = "int (length workItems)"
  show ?case
  proof (cases "chunkStart < ?n")
    case False
    then show ?thesis
      using less.prems(1,5) Process_chunks_finished [OF False, of w job runs reps]
      by (auto simp: progress_updates_append)
  next
    case True
    show ?thesis
    proof (cases "ctxErr w (length runs)")
      case (Some e)
      then show ?thesis
        using less.prems(1,5) Process_chunks_done [OF True Some, of job reps]
        by (auto simp: progress_updates_append)
    next
      case None
      let ?next = "int64 (chunkStart + ChunkSize (job_Config job))"
      let ?chunk = "take (nat (min ?next ?n - chunkStart)) (drop (nat chunkStart) workItems)"
      let ?job1 = "job\<lparr>job_Progress := (job_Progress job)\<lparr>CurrentChunk := int (length runs) + 1\<rparr>\<rparr>"
      obtain r where r: "ProcessChunk w ?chunk = Inr r" and grow: "chunkStart < ?next"
        and cl: "int (length ?chunk) = min ?next ?n - chunkStart"
        and rest: "if run_err r \<noteq> None \<and> FailOnError (job_Config job) then
              run = \<lparr>final_job = ?job1\<lparr>job_Status := JobStatusFailed,
                        job_Error := Some (wrap_cause ''chunk failed'' (run_err r))\<rparr>,
                     reports = reps @ [ReportJobFailed (?job1\<lparr>job_Status := JobStatusFailed,
                        job_Error := Some (wrap_cause ''chunk failed'' (run_err r))\<rparr>)
                        (wrap_cause ''chunk failed'' (run_err r))],
                     chunk_runs = runs, returned = run_err r\<rparr>
            else Process_chunks w workItems (updateJobProgress ?job1 (run_result r)) (runs @ [r]) ?next
                   (reps @ [ReportChunkComplete (updateJobProgress ?job1 (run_result r)) (run_result r)])
                 = Inr run"
        using Process_chunks_next [OF less.prems(1) True None less.prems(2)] by blast
      show ?thesis
      proof (cases "run_err r \<noteq> None \<and> FailOnError (job_Config job)")
        case True
        then show ?thesis
          using less.prems(5) rest by (auto simp: progress_updates_append)
      next
        case False
        let ?job2 = "updateJobProgress ?job1 (run_result r)"
        let ?reps2 = "reps @ [ReportChunkComplete ?job2 (run_result r)]"
        have rec: "Process_chunks w workItems ?job2 (runs @ [r]) ?next ?reps2 = Inr run"
          using rest False by (auto split: if_splits)
        have cnt: "int (length (cr_Results (run_result r))) =
                     cr_SuccessCount (run_result r) + cr_FailureCount (run_result r)"
          and len: "length (cr_Results (run_result r)) \<le> length ?chunk"
          using ProcessChunk_counts [OF r] by simp_all
        have len': "int (length (cr_Results (run_result r))) \<le> min ?next ?n - chunkStart"
          using len cl by linarith
        have ok2: "counters_ok ?n (job_Progress ?job2)"
          using less.prems(3,4) cnt len'
          by (auto simp: counters_ok_def updateJobProgress_def)
        have le2: "ProcessedTiles (job_Progress ?job2) \<le> ?next"
          using less.prems(4) len' by (auto simp: updateJobProgress_def)
        have reps2: "\<forall>p\<in>set (progress_updates ?reps2). counters_ok ?n p"
          using less.prems(5) ok2 by (simp add: progress_updates_append)
        have smaller: "nat (?n - ?next) < nat (?n - chunkStart)"
          using True grow by simp
        have pos2: "0 \<le> ?next"
          using grow less.prems(2) by simp
        show ?thesis
          using less.hyps [OF smaller rec pos2 ok2 le2 reps2] .
      qed
    qed
  qed
qed

lemma counters_ok_percentage:
  assumes "counters_ok n p"
  shows "ProcessedTiles p = SuccessTiles p + FailedTiles p \<and>
         0 \<le> CalculateProgress p \<and> CalculateProgress p \<le> 100 \<and>
         CalculateProgress p =
           (if TotalTiles p = 0 then 0
            else real_of_int (ProcessedTiles p) / real_of_int (TotalTiles p) * 100)"
proof -
  have eq: "ProcessedTiles p = SuccessTiles p + FailedTiles p"
    using assms by (simp add: counters_ok_def)
  have p: "0 \<le> ProcessedTiles p" "ProcessedTiles p \<le> TotalTiles p"
    using assms by (simp_all add: counters_ok_def)
  have c: "CalculateProgress p =
           (if TotalTiles p = 0 then 0
            else real_of_int (ProcessedTiles p) / real_of_int (TotalTiles p) * 100)"
    by (simp add: CalculateProgress_def)
  have lo: "0 \<le> CalculateProgress p"
    using p by (simp add: CalculateProgress_def)
  have hi: "CalculateProgress p \<le> 100"
  proof (cases "TotalTiles p = 0")
    case True
    then show ?thesis by (simp add: CalculateProgress_def)
  next
    case False
    then have "0 < real_of_int (TotalTiles p)"
      using p by simp
    moreover have "real_of_int (ProcessedTiles p) \<le> real_of_int (TotalTiles p)"
      using p by simp
    ultimately have "real_of_int (ProcessedTiles p) / real_of_int (TotalTiles p) \<le> 1"
      by (simp only: divide_le_eq_1_pos)
    then have "real_of_int (ProcessedTiles p) / real_of_int (TotalTiles p) * 100 \<le> 1 * 100"
      by (rule mult_right_mono) simp
    then show ?thesis
      using False by (simp only: CalculateProgress_def if_False mult_1)
  qed
  show ?thesis
    using eq lo hi c by blast
qed

text \<open>
  A run of \<open>Process\<close> that starts with the counters at zero, as \<open>NewJob\<close> and \<open>SubmitJob\<close>
  leave them: every progress the reporter sees right after a chunk-level update satisfies
  \<open>processed = success + failed\<close> and \<open>0 \<le> progress_pct \<le> 100\<close>, with
  \<open>progress_pct = processed / total * 100\<close> and 0 for \<open>total = 0\<close>, whatever the context,
  the worker pool, the fetcher, the processor and the writer do.
\<close>

lemma Process_zero_counters_progress:
  assumes run: "Process w job = Inr run"
    and zero: "ProcessedTiles (job_Progress job) = 0" "SuccessTiles (job_Progress job) = 0"
      "FailedTiles (job_Progress job) = 0"
  shows "\<forall>p\<in>set (progress_updates (reports run)).
           ProcessedTiles p = SuccessTiles p + FailedTiles p \<and>
           0 \<le> CalculateProgress p \<and> CalculateProgress p \<le> 100 \<and>
           CalculateProgress p =
             (if TotalTiles p = 0 then 0
              else real_of_int (ProcessedTiles p) / real_of_int (TotalTiles p) * 100)"
proof (cases "generateWorkItems (job_TileRanges job) (job_Config job)")
  case (Inl err)
  then have "reports run = [ReportProgress (job\<lparr>job_Status := JobStatusRunning\<rparr>),
      ReportJobFailed (job\<lparr>job_Status := JobStatusFailed,
        job_Error := Some (Wrap ''failed to generate work items'' err)\<rparr>)
        (Wrap ''failed to generate work items'' err)]"
    using run by (auto simp: Process_def completeJobWithError_def Let_def)
  then show ?thesis by simp
next
  case (Inr workItems)
  let ?n = "int (length workItems)"
  let ?cs = "ChunkSize (job_Config job)"
  let ?job1 = "job\<lparr>job_Status := JobStatusRunning\<rparr>"
  let ?job2 = "?job1\<lparr>job_Progress := (job_Progress ?job1)
                 \<lparr>TotalTiles := ?n,
                  TotalChunks := int64 (go_div (int64 (int64 (?n + ?cs) - 1)) ?cs)\<rparr>\<rparr>"
  have P: "Process_chunks w workItems ?job2 [] 0 [ReportProgress ?job1] = Inr run"
    using run Inr by (auto simp: Process_def Let_def split: if_splits)
  have ok: "counters_ok ?n (job_Progress ?job2)"
    using zero by (simp add: counters_ok_def)
  have "\<forall>p\<in>set (progress_updates (reports run)). counters_ok ?n p"
    using P
  proof (rule Process_chunks_counters)
    show "counters_ok ?n (job_Progress ?job2)" by (rule ok)
  qed (simp_all add: zero)
  then show ?thesis
    using counters_ok_percentage by blast
qed

text \<open>
  Such a run returns when the chunk size is positive and small enough for
  \<open>len(workItems) + ChunkSize\<close> not to wrap around.
\<close>

lemma go_div_bounds: "0 \<le> a \<Longrightarrow> 0 < b \<Longrightarrow> 0 \<le> go_div a b \<and> go_div a b \<le> a"
proof -
  assume a: "0 \<le> a" and b: "0 < b"
  have "a div b \<le> a"
    using zdiv_mono2 [of a 1 b] a b by simp
  moreover have "0 \<le> a div b"
    using a b by (simp add: pos_imp_zdiv_nonneg_iff)
  ultimately show ?thesis
    using a b by (simp add: go_div_def sgn_if)
qed

lemma Process_chunks_returns:
  assumes "0 < ChunkSize (job_Config job)" and "0 \<le> chunkStart"
    and "int (length workItems) + ChunkSize (job_Config job) < 2 ^ 63"
  shows "\<exists>run. Process_chunks w workItems job runs chunkStart reps = Inr run"
  using assms
proof (induction "nat (int (length workItems) - chunkStart)" arbitrary: job runs chunkStart reps
       rule: less_induct)
  case less
  let ?n = "int (length workItems)"
  show ?case
  proof (cases "chunkStart < ?n")
    case False
    then show ?thesis
      using Process_chunks_finished [OF False, of w job runs reps] by simp
  next
    case True
    show ?thesis
    proof (cases "ctxErr w (length runs)")
      case (Some e)
      then show ?thesis
        using Process_chunks_done [OF True Some, of job reps] by simp
    next
      case None
      let ?cs = "ChunkSize (job_Config job)"
      have nx: "int64 (chunkStart + ?cs) = chunkStart + ?cs"
        using True less.prems by (intro int64_id) auto
      let ?chunkEnd = "min (int64 (chunkStart + ?cs)) ?n"
      let ?chunk = "take (nat (?chunkEnd - chunkStart)) (drop (nat chunkStart) workItems)"
      let ?job1 = "job\<lparr>job_Progress := (job_Progress job)\<lparr>CurrentChunk := int (length runs) + 1\<rparr>\<rparr>"
      have le: "chunkStart \<le> int64 (chunkStart + ?cs)"
        using nx less.prems(1) by simp
      note step = Process_chunks_chunk [OF True None less.prems(2) le, of reps]
      have "int (length ?chunk) = ?chunkEnd - chunkStart"
        using True less.prems(2) le by (rule chunk_length)
      then have "?chunk \<noteq> []"
        using True less.prems(1) nx by auto
      then obtain r where Inr: "ProcessChunk w ?chunk = Inr r"
        using ProcessChunk_nonempty by blast
      show ?thesis
      proof (cases "run_err r \<noteq> None \<and> FailOnError (job_Config job)")
        case True
        then show ?thesis
          using step Inr by simp
      next
        case False
        let ?job2 = "updateJobProgress ?job1 (run_result r)"
        have cfg: "job_Config ?job2 = job_Config job"
          by (simp add: updateJobProgress_def)
        have smaller: "nat (?n - (chunkStart + ?cs)) < nat (?n - chunkStart)"
          using True less.prems(1) by simp
        have "\<exists>run. Process_chunks w workItems ?job2 (runs @ [r]) (chunkStart + ?cs)
                 (reps @ [ReportChunkComplete ?job2 (run_result r)]) = Inr run"
          using less.hyps [OF smaller, of ?job2] less.prems cfg by simp
        then show ?thesis
          using step Inr False nx by (auto split: if_splits)
      qed
    qed
  qed
qed

lemma Process_returns:
  assumes cs: "0 < ChunkSize (job_Config job)"
    and small: "\<And>workItems. generateWorkItems (job_TileRanges job) (job_Config job) = Inr workItems
                  \<Longrightarrow> int (length workItems) + ChunkSize (job_Config job) < 2 ^ 63"
  shows "\<exists>run. Process w job = Inr run"
proof (cases "generateWorkItems (job_TileRanges job) (job_Config job)")
  case (Inl err)
  then show ?thesis
    by (simp add: Process_def completeJobWithError_def Let_def)
next
  case (Inr workItems)
  let ?n = "int (length workItems)"
  let ?cs = "ChunkSize (job_Config job)"
  let ?job1 = "job\<lparr>job_Status := JobStatusRunning\<rparr>"
  let ?job2 = "?job1\<lparr>job_Progress := (job_Progress ?job1)
                 \<lparr>TotalTiles := ?n,
                  TotalChunks := int64 (go_div (int64 (int64 (?n + ?cs) - 1)) ?cs)\<rparr>\<rparr>"
  have sm: "?n + ?cs < 2 ^ 63"
    using Inr by (rule small)
  have s1: "int64 (?n + ?cs) = ?n + ?cs"
    using sm cs by (intro int64_id) auto
  have s2: "int64 (?n + ?cs - 1) = ?n + ?cs - 1"
    using sm cs by (intro int64_id) auto
  have b: "0 \<le> go_div (?n + ?cs - 1) ?cs" "go_div (?n + ?cs - 1) ?cs \<le> ?n + ?cs - 1"
    using go_div_bounds [of "?n + ?cs - 1" ?cs] cs by simp_all
  have s3: "int64 (go_div (?n + ?cs - 1) ?cs) = go_div (?n + ?cs - 1) ?cs"
    using b sm by (intro int64_id) auto
  have P: "Process w job = Process_chunks w workItems ?job2 [] 0 [ReportProgress ?job1]"
    using Inr cs b s1 s2 s3 by (simp add: Process_def Let_def)
  have "0 < ChunkSize (job_Config ?job2)" "?n + ChunkSize (job_Config ?job2) < 2 ^ 63"
    using cs sm by simp_all
  then show ?thesis
    unfolding P by (intro Process_chunks_returns) simp_all
qed

text \<open>What a pool does against a server that is down: every item it processes fails.\<close>

lemma server_down_simps:
  "fate server_down i = Processed" "ctxErr server_down k = None"
  "writerWriteBatch server_down ts = None"
  "fetcherFetch server_down i a = (None, Some (Errorf ''HTTP 500''))"
  by (simp_all add: server_down_def)

lemma deadline_after_first_chunk_simps:
  "fate deadline_after_first_chunk i = Processed"
  "ctxErr deadline_after_first_chunk 0 = None"
  "ctxErr deadline_after_first_chunk (Suc k) = Some ContextDeadlineExceeded"
  "writerWriteBatch deadline_after_first_chunk ts = None"
  "fetcherFetch deadline_after_first_chunk i a = (None, Some (Errorf ''HTTP 500''))"
  by (simp_all add: deadline_after_first_chunk_def server_down_def)

lemma failing_fetch_item:
  assumes "\<And>a. fetcherFetch w item a = (None, Some (Errorf ''HTTP 500''))"
  shows "res_Error (fst (processWorkItem w item)) = Some (Wrap ''fetch failed'' (Errorf ''HTTP 500''))"
  by (simp add: processWorkItem_def processWorkItem_loop.simps assms)

lemma failing_fetch_pair:
  assumes "\<And>i a. fetcherFetch w i a = (None, Some (Errorf ''HTTP 500''))"
    and "\<And>i. fate w i = Processed"
  shows "\<exists>r. ProcessChunk w [a, b] = Inr r \<and> length (cr_Results (run_result r)) = 2 \<and>
           cr_SuccessCount (run_result r) = 0 \<and> cr_FailureCount (run_result r) = 2 \<and>
           run_err r = None \<and> run_workers r = 2"
  by (simp add: ProcessChunk_def ProcessChunk_concurrency_def worker_item_def assms
      failing_fetch_item)

lemma gen_zoom1: "\<exists>a b c d. generateWorkItems [zoom1_range] cfg = Inr [a, b, c, d]"
  by (simp add: generateWorkItems_def zoom1_range_def ValidateCoordinates_def upto.simps Let_def)

lemma timed_out_first_run:
  "map_option final_job (the_run (SubmitJob deadline_after_first_chunk job_resumable)) =
     Some timed_out_job"
proof -
  let ?w = deadline_after_first_chunk
  obtain a b c d where g: "generateWorkItems [zoom1_range] resumable_config = Inr [a, b, c, d]"
    using gen_zoom1 by blast
  obtain r where r: "ProcessChunk ?w [a, b] = Inr r" "length (cr_Results (run_result r)) = 2"
    "cr_SuccessCount (run_result r) = 0" "cr_FailureCount (run_result r) = 2" "run_err r = None"
    using failing_fetch_pair [of ?w a b] by (auto simp: deadline_after_first_chunk_simps)
  have v: "validateJob job_resumable = None"
    by (simp add: validateJob_def job_resumable_def NewJob_def resumable_config_def NewJobConfig_def
        validateTileRange_def zoom1_range_def)
  let ?job = "job_resumable\<lparr>job_Progress := NewJobProgress, job_Status := JobStatusPending\<rparr>"
  have cfg: "job_Config ?job = resumable_config" "job_TileRanges ?job = [zoom1_range]"
    "ChunkSize resumable_config = 2"
    by (simp_all add: job_resumable_def NewJob_def resumable_config_def)
  have "Process ?w ?job =
     Inr \<lparr>final_job = timed_out_job,
          reports = [ReportProgress (?job\<lparr>job_Status := JobStatusRunning\<rparr>),
            ReportChunkComplete
              (timed_out_job\<lparr>job_Status := JobStatusRunning, job_Error := None\<rparr>) (run_result r),
            ReportJobFailed timed_out_job ContextDeadlineExceeded],
          chunk_runs = [r], returned = Some ContextDeadlineExceeded\<rparr>"
    using g r
    by (simp add: Process_def cfg go_div_def int64_def Let_def
        Process_chunks.simps [of _ _ _ _ 0] Process_chunks.simps [of _ _ _ _ 2]
        deadline_after_first_chunk_simps completeJobWithError_def updateJobProgress_def
        timed_out_job_def job_resumable_def NewJob_def NewJobProgress_def)
  then show ?thesis
    using v by (simp add: SubmitJob_def run_job_def the_run_def job_resumable_def NewJob_def
        timed_out_job_def)
qed

text \<open>
  Claim C7 at a job that is run a second time.  A resumable job over four tiles in chunks
  of two times out after its first chunk (processed 2 of 4) and is resumed through the
  coordinator.  \<open>Process\<close> sets the total to 4 again but leaves the counters of the first
  run in place, so the two progress updates of the second run show 4 of 4 and then 6 of 4
  processed: \<open>processed = success + failed\<close> holds, but the percentage is 150, where the
  claim says it never exceeds 100.
\<close>

theorem Process_rerun_exceeds_100_percent:
  "map_option final_job (the_run (SubmitJob deadline_after_first_chunk job_resumable)) =
     Some timed_out_job \<and>
   CanResume timed_out_job \<and>
   map_option progress_counts (the_run (ResumeJob server_down timed_out_job)) =
     Some [(4, 0, 4, 4), (6, 0, 6, 4)] \<and>
   map_option percentages (the_run (ResumeJob server_down timed_out_job)) = Some [100, 150]"
proof -
  let ?w = server_down
  obtain a b c d where g: "generateWorkItems [zoom1_range] resumable_config = Inr [a, b, c, d]"
    using gen_zoom1 by blast
  obtain r1 where r1: "ProcessChunk ?w [a, b] = Inr r1" "length (cr_Results (run_result r1)) = 2"
    "cr_SuccessCount (run_result r1) = 0" "cr_FailureCount (run_result r1) = 2" "run_err r1 = None"
    using failing_fetch_pair [of ?w a b] by (auto simp: server_down_simps)
  obtain r2 where r2: "ProcessChunk ?w [c, d] = Inr r2" "length (cr_Results (run_result r2)) = 2"
    "cr_SuccessCount (run_result r2) = 0" "cr_FailureCount (run_result r2) = 2" "run_err r2 = None"
    using failing_fetch_pair [of ?w c d] by (auto simp: server_down_simps)
  have can: "CanResume timed_out_job"
    by (simp add: CanResume_def timed_out_job_def resumable_config_def)
  let ?job = "timed_out_job\<lparr>job_Status := JobStatusPending\<rparr>"
  have cfg: "job_Config ?job = resumable_config" "job_TileRanges ?job = [zoom1_range]"
    "ChunkSize resumable_config = 2"
    by (simp_all add: timed_out_job_def resumable_config_def)
  obtain run where run: "Process ?w ?job = Inr run" "returned run = None"
    and ups: "progress_updates (reports run) =
       [\<lparr>TotalTiles = 4, ProcessedTiles = 4, FailedTiles = 4, SuccessTiles = 0,
          CurrentChunk = 1, TotalChunks = 2, BytesWritten = 0\<rparr>,
        \<lparr>TotalTiles = 4, ProcessedTiles = 6, FailedTiles = 6, SuccessTiles = 0,
          CurrentChunk = 2, TotalChunks = 2, BytesWritten = 0\<rparr>]"
    using g r1 r2
    by (simp add: Process_def cfg go_div_def int64_def Let_def
        Process_chunks.simps [of _ _ _ _ 0] Process_chunks.simps [of _ _ _ _ 2]
        Process_chunks.simps [of _ _ _ _ 4]
        server_down_simps completeJobSuccessfully_def updateJobProgress_def
        timed_out_job_def)
  have "the_run (ResumeJob server_down timed_out_job) = Some run"
    using can run by (simp add: ResumeJob_def run_job_def the_run_def)
  then show ?thesis
    using can ups timed_out_first_run
    by (simp add: progress_counts_def percentages_def CalculateProgress_def)
qed

section \<open>Worker pool of a chunk\<close>

text \<open>The pool of every chunk is bounded by the literal 10 and by the chunk, by nothing else.\<close>

lemma ProcessChunk_workers:
  "ProcessChunk w workItems = Inr r \<Longrightarrow> run_workers r = min (int (length workItems)) 10"
  by (auto simp: ProcessChunk_def ProcessChunk_concurrency_def Let_def
      split: prod.splits list.splits option.splits if_splits)

text \<open>
  Claim C1 at two inputs.  A job over the four tiles of zoom level 1 configured with
  concurrency 1: \<open>Process\<close> dispatches one chunk and \<open>ProcessChunk\<close> starts
  \<open>min(4, 10) = 4\<close> workers for it, where the claim says \<open>min(4, 1) = 1\<close>.  A chunk of 20
  items under a configured concurrency of 20: 10 workers, where the claim says 20.  The
  bound is the constant 10; the configured concurrency is not among the inputs of
  \<open>ProcessChunk\<close>.
\<close>

theorem ProcessChunk_ignores_configured_concurrency:
  "Concurrency (job_Config job_zoom1) = 1 \<and>
   workers_started (Process server_down job_zoom1) = Some [4] \<and>
   Concurrency concurrency_20 = 20 \<and> length twenty_items = 20 \<and>
   map_sum id run_workers (ProcessChunk server_down twenty_items) = Inr 10"
proof -
  obtain a b c d where g: "generateWorkItems [zoom1_range] sequential_config = Inr [a, b, c, d]"
    using gen_zoom1 by blast
  have pc: "map_sum id run_workers (ProcessChunk server_down [a, b, c, d]) = Inr 4"
    by (simp add: ProcessChunk_def ProcessChunk_concurrency_def Let_def
        split: prod.splits option.splits)
  then obtain r where r: "ProcessChunk server_down [a, b, c, d] = Inr r" "run_workers r = 4"
    by (cases "ProcessChunk server_down [a, b, c, d]") auto
  have "workers_started (Process server_down job_zoom1) = Some [4]"
    using g r
    by (simp add: Process_def job_zoom1_def NewJob_def sequential_config_def NewJobConfig_def
        go_div_def int64_def Process_chunks.simps [of _ _ _ _ 0]
        Process_chunks.simps [of _ _ _ _ 100] Let_def server_down_simps workers_started_def
        completeJobSuccessfully_def completeJobWithError_def split: prod.splits)
  moreover have "map_sum id run_workers (ProcessChunk server_down twenty_items) = Inr 10"
    by (simp add: twenty_items_def ProcessChunk_concurrency_def ProcessChunk_def
      Let_def split: prod.splits list.splits option.splits)
  ultimately show ?thesis
    by (simp add: job_zoom1_def NewJob_def sequential_config_def concurrency_20_def twenty_items_def)
qed

section \<open>Cancellation\<close>

text \<open>
  A run of \<open>Process\<close> that returns leaves the job either \<open>Completed\<close> (and returns nil) or
  \<open>Failed\<close> (and returns an error); \<open>Process\<close> has no path that sets \<open>Canceled\<close>.
\<close>

lemma Process_chunks_status:
  assumes "Process_chunks w workItems job runs chunkStart reps = Inr run"
    and "0 \<le> chunkStart"
  shows "job_Status (final_job run) = JobStatusCompleted \<and> returned run = None \<or>
         job_Status (final_job run) = JobStatusFailed \<and> returned run \<noteq> None"
  using assms
proof (induction "nat (int (length workItems) - chunkStart)" arbitrary: job runs chunkStart reps
       rule: less_induct)
  case less
  let ?n = "int (length workItems)"
  show ?case
  proof (cases "chunkStart < ?n")
    case False
    then show ?thesis
      using less.prems(1) Process_chunks_finished [OF False, of w job runs reps]
      by (auto simp: completeJobSuccessfully_def)
  next
    case True
    show ?thesis
    proof (cases "ctxErr w (length runs)")
      case (Some e)
      then show ?thesis
        using less.prems(1) Process_chunks_done [OF True Some, of job reps] by auto
    next
      case None
      let ?next = "int64 (chunkStart + ChunkSize (job_Config job))"
      let ?chunk = "take (nat (min ?next ?n - chunkStart)) (drop (nat chunkStart) workItems)"
      let ?job1 = "job\<lparr>job_Progress := (job_Progress job)\<lparr>CurrentChunk := int (length runs) + 1\<rparr>\<rparr>"
      obtain r where r: "ProcessChunk w ?chunk = Inr r" and grow: "chunkStart < ?next"
        and rest: "if run_err r \<noteq> None \<and> FailOnError (job_Config job) then
              run = \<lparr>final_job = ?job1\<lparr>job_Status := JobStatusFailed,
                        job_Error := Some (wrap_cause ''chunk failed'' (run_err r))\<rparr>,
                     reports = reps @ [ReportJobFailed (?job1\<lparr>job_Status := JobStatusFailed,
                        job_Error := Some (wrap_cause ''chunk failed'' (run_err r))\<rparr>)
                        (wrap_cause ''chunk failed'' (run_err r))],
                     chunk_runs = runs, returned = run_err r\<rparr>
            else Process_chunks w workItems (updateJobProgress ?job1 (run_result r)) (runs @ [r]) ?next
                   (reps @ [ReportChunkComplete (updateJobProgress ?job1 (run_result r)) (run_result r)])
                 = Inr run"
        using Process_chunks_next [OF less.prems(1) True None less.prems(2)] by blast
      show ?thesis
      proof (cases "run_err r \<noteq> None \<and> FailOnError (job_Config job)")
        case True
        then show ?thesis
          using rest by auto
      next
        case False
        let ?job2 = "updateJobProgress ?job1 (run_result r)"
        let ?reps2 = "reps @ [ReportChunkComplete ?job2 (run_result r)]"
        have rec: "Process_chunks w workItems ?job2 (runs @ [r]) ?next ?reps2 = Inr run"
          using rest False by (auto split: if_splits)
        have smaller: "nat (?n - ?next) < nat (?n - chunkStart)"
          using True grow by simp
        have pos2: "0 \<le> ?next"
          using grow less.prems(2) by simp
        show ?thesis
          using less.hyps [OF smaller rec pos2] .
      qed
    qed
  qed
qed

lemma Process_never_marks_canceled:
  assumes "Process w job = Inr run"
  shows "job_Status (final_job run) = JobStatusCompleted \<and> returned run = None \<or>
         job_Status (final_job run) = JobStatusFailed \<and> returned run \<noteq> None"
proof (cases "generateWorkItems (job_TileRanges job) (job_Config job)")
  case (Inl err)
  then show ?thesis
    using assms by (auto simp: Process_def completeJobWithError_def Let_def)
next
  case (Inr workItems)
  let ?n = "int (length workItems)"
  let ?cs = "ChunkSize (job_Config job)"
  let ?job1 = "job\<lparr>job_Status := JobStatusRunning\<rparr>"
  let ?job2 = "?job1\<lparr>job_Progress := (job_Progress ?job1)
                 \<lparr>TotalTiles := ?n,
                  TotalChunks := int64 (go_div (int64 (int64 (?n + ?cs) - 1)) ?cs)\<rparr>\<rparr>"
  have "Process_chunks w workItems ?job2 [] 0 [ReportProgress ?job1] = Inr run"
    using assms Inr by (auto simp: Process_def Let_def split: if_splits)
  then show ?thesis
    by (rule Process_chunks_status) simp
qed

text \<open>
  Claim C2, as the code has it.  When \<open>Process\<close> finds the context done at the top of a
  chunk, it marks the job \<open>Failed\<close> (through \<open>completeJobWithError\<close>), records the
  context's error in the job, reports the failure and returns the context's error; the
  chunks already finished stay as they are.
\<close>

theorem Process_cancellation_marks_job_failed:
  assumes "chunkStart < int (length workItems)" and "ctxErr w (length runs) = Some e"
  shows "Process_chunks w workItems job runs chunkStart reps =
           Inr \<lparr>final_job = job\<lparr>job_Status := JobStatusFailed, job_Error := Some e\<rparr>,
                reports = reps @ [ReportJobFailed (job\<lparr>job_Status := JobStatusFailed, job_Error := Some e\<rparr>) e],
                chunk_runs = runs, returned = Some e\<rparr>"
  using assms
  by (subst Process_chunks.simps) (simp add: completeJobWithError_def Let_def)

theorem Process_cancellation_marks_job_failed_witness:
  "0 < int (length [item_1_0_1]) \<and> ctxErr canceled_at_start (length ([] :: chunk_run list)) = Some ContextCanceled \<and>
   final_status (Process_chunks canceled_at_start [item_1_0_1] job_1_0_1 [] 0 []) = Some JobStatusFailed \<and>
   returned_error (Process_chunks canceled_at_start [item_1_0_1] job_1_0_1 [] 0 []) = Some ContextCanceled"
proof -
  have a: "0 < int (length [item_1_0_1])"
    by simp
  have b: "ctxErr canceled_at_start (length ([] :: chunk_run list)) = Some ContextCanceled"
    by (simp add: canceled_at_start_def)
  show ?thesis
    using a b Process_cancellation_marks_job_failed [OF a b, of job_1_0_1 "[]"]
    by (simp add: final_status_def returned_error_def)
qed

text \<open>
  A job whose context is canceled before the first chunk ends \<open>Failed\<close>, not
  \<open>Canceled\<close>.
\<close>

theorem Process_cancellation_counterexample:
  "ctxErr canceled_at_start 0 = Some ContextCanceled \<and>
   final_status (Process canceled_at_start job_1_0_1) = Some JobStatusFailed \<and>
   final_status (Process canceled_at_start job_1_0_1) \<noteq> Some JobStatusCanceled"
  by (simp add: Process_def job_1_0_1_def NewJob_def gen_tile_1_0_1 NewJobConfig_def go_div_def
      int64_def Process_chunks.simps [of _ _ _ _ 0] canceled_at_start_def completeJobWithError_def
      final_status_def Let_def)

section \<open>Layer names\<close>

text \<open>
  Claim C5 at the tile of the repository's own test, with the map visited in the order
  water, roads, places: \<open>GetLayerNames\<close> returns the names in the order of the visit,
  the converter copies them into the metadata as they are, and the sequence is not sorted.
  \<open>TestDecodedTileGetLayerNames\<close> expects places, roads, water.
\<close>

theorem GetLayerNames_not_sorted:
  "range_order (Layers three_layer_tile) [''water'', ''roads'', ''places''] \<and>
   GetLayerNames [''water'', ''roads'', ''places''] three_layer_tile = [''water'', ''roads'', ''places''] \<and>
   conv_Layers (Convert_metadata [''water'', ''roads'', ''places''] three_layer_tile 0) =
     [''water'', ''roads'', ''places''] \<and>
   \<not> sorted [''water'', ''roads'', ''places'']"
  by (auto simp: range_order_def three_layer_tile_def GetLayerNames_def Convert_metadata_def
      less_eq_char_def less_char_def)

end
